theory Spec2Isabelle
  imports Complex_Main "HOL-Library.Multiset" "HOL-Library.Char_ord"
    "HOL-Library.List_Lexorder" "HOL-Library.Product_Lexorder"
begin

section \<open>Retail sales pipeline: cleaning and aggregation\<close>

text \<open>
  The pipeline of \<^verbatim>\<open>main.py\<close> reads a CSV file (\<^verbatim>\<open>extract_data\<close>), cleans it and derives
  features (\<^verbatim>\<open>clean_data\<close>), prints a quality report (\<^verbatim>\<open>validate_data\<close>), loads the table
  into SQLite (\<^verbatim>\<open>load_to_database\<close>) and runs a catalogue of SQL queries
  (\<^verbatim>\<open>run_analysis_queries\<close>).

  Conventions of the embedding.
  \<^item> Text is \<open>string\<close>. The file is decoded as Latin-1, so a character is one code point
    below 256, which is what a HOL \<open>char\<close> holds.
  \<^item> Numeric cells are exact rationals (\<open>rat\<close>): every finite float is one, and a decimal
    literal of the source stands for the decimal it writes. Float rounding error and NaN
    in numeric cells are outside the model.
  \<^item> A missing cell, NaN in a categorical column and SQL NULL are \<open>None\<close>.
  \<^item> Library functions whose semantics the repository relies on (\<^verbatim>\<open>str.strip\<close>,
    \<^verbatim>\<open>drop_duplicates\<close>, \<^verbatim>\<open>pd.cut\<close>, \<^verbatim>\<open>round\<close>, SQL grouping and ordering) are written
    out; \<^verbatim>\<open>pd.read_csv\<close> and \<^verbatim>\<open>pd.to_datetime\<close> are parameters.
\<close>

subsection \<open>Column names\<close>

text \<open>\<^verbatim>\<open>str.strip()\<close> removes leading and trailing whitespace. Below 256 the whitespace
  code points of Python are 9..13, 28..31, 32, 133 and 160.\<close>

definition isspace :: "char \<Rightarrow> bool" where
  "isspace c = (let n = (of_char c :: nat) in
     (9 \<le> n \<and> n \<le> 13) \<or> (28 \<le> n \<and> n \<le> 32) \<or> n = 133 \<or> n = 160)"

definition strip :: "string \<Rightarrow> string" where
  "strip s = rev (dropWhile isspace (rev (dropWhile isspace s)))"

text \<open>\<^verbatim>\<open>str.replace(old, new)\<close> for one-character \<open>old\<close> and \<open>new\<close>.\<close>

definition replace :: "char \<Rightarrow> char \<Rightarrow> string \<Rightarrow> string" where
  "replace old new s = map (\<lambda>c. if c = old then new else c) s"

text \<open>\<^verbatim>\<open>str.lower()\<close>: below 256 the upper-case letters are A..Z and the code points
  192..222 except 215 (the multiplication sign); each has its lower case 32 above.\<close>

definition is_upper :: "char \<Rightarrow> bool" where
  "is_upper c = (let n = (of_char c :: nat) in
     (65 \<le> n \<and> n \<le> 90) \<or> (192 \<le> n \<and> n \<le> 222 \<and> n \<noteq> 215))"

definition lower_char :: "char \<Rightarrow> char" where
  "lower_char c = (if is_upper c then char_of (of_char c + (32::nat)) else c)"

definition lower :: "string \<Rightarrow> string" where
  "lower s = map lower_char s"

text \<open>Step 2 of \<^verbatim>\<open>clean_data\<close>:
  \<^verbatim>\<open>df.columns.str.strip().str.replace(' ', '_').str.replace('-', '_').str.lower()\<close>.\<close>

definition normalize_name :: "string \<Rightarrow> string" where
  "normalize_name s = lower (replace (CHR ''-'') (CHR ''_'') (replace (CHR '' '') (CHR ''_'') (strip s)))"

definition normalize_columns :: "string list \<Rightarrow> string list" where
  "normalize_columns cols = map normalize_name cols"

subsection \<open>Duplicate rows\<close>

text \<open>\<^verbatim>\<open>DataFrame.duplicated()\<close> with the default \<^verbatim>\<open>keep='first'\<close> marks a row that equals
  an earlier row in every column; \<^verbatim>\<open>drop_duplicates()\<close> keeps the unmarked rows, in order.
  Two missing cells count as equal there, as two \<open>None\<close> do.\<close>

fun duplicated :: "'a list \<Rightarrow> 'a list \<Rightarrow> bool list" where
  "duplicated seen [] = []"
| "duplicated seen (r # rs) = (r \<in> set seen) # duplicated (r # seen) rs"

definition keep_unmarked :: "'a list \<Rightarrow> bool list \<Rightarrow> 'a list" where
  "keep_unmarked rs marks = map fst (filter (\<lambda>(r, d). \<not> d) (zip rs marks))"

definition drop_duplicates :: "'a list \<Rightarrow> 'a list" where
  "drop_duplicates rs = keep_unmarked rs (duplicated [] rs)"

subsection \<open>Tables\<close>

text \<open>A pandas \<^verbatim>\<open>Timestamp\<close> is a count of nanoseconds since the epoch; \<^verbatim>\<open>.dt.year\<close>,
  \<^verbatim>\<open>.dt.month\<close>, \<^verbatim>\<open>.dt.day_name()\<close> and \<^verbatim>\<open>astype(str)\<close> read the calendar off it. The
  calendar is pandas' own, so a timestamp carries these readings with it.\<close>

record timestamp =
  ts_value :: int
  ts_year :: int
  ts_month :: nat
  ts_day_name :: string
  ts_text :: string

text \<open>One row of the table, with the columns the pipeline reads by name. The type of
  three columns changes along the pipeline: the dates (\<open>'d\<close>), the quantity (\<open>'q\<close>) and the
  postal code (\<open>'p\<close>). \<open>other_cells\<close> holds the cells of every column the pipeline never
  reads (row id, customer name, country, city), so that equality of rows is equality in
  every column.\<close>

record ('d, 'q, 'p) row =
  order_id :: string
  order_date :: 'd
  ship_date :: 'd
  ship_mode :: string
  customer_id :: string
  segment :: string
  state :: string
  postal_code :: 'p
  region :: string
  product_id :: string
  category :: string
  sub_category :: string
  product_name :: string
  sales :: rat
  quantity :: 'q
  discount :: rat
  profit :: rat
  other_cells :: "string list"

text \<open>The columns \<^verbatim>\<open>clean_data\<close> adds; \<open>'b\<close> is the type of \<open>discount_bucket\<close>.\<close>

record ('d, 'q, 'p, 'b) sale = "('d, 'q, 'p) row" +
  delivery_days :: int
  profit_margin_pct :: rat
  revenue_per_unit :: rat
  order_year :: int
  order_month :: nat
  order_quarter :: nat
  order_day_of_week :: string
  is_profitable :: bool
  discount_bucket :: 'b

type_synonym raw_row = "(string, rat, int option) row"
type_synonym cleaned_row = "(timestamp, int, string, string option) sale"
type_synonym db_row = "(string, int, string, string) sale"

record 'r frame =
  columns :: "string list"
  rows :: "'r list"

datatype error =
    SystemExit int
  | FileNotFoundError string
  | KeyError string
  | DateParseError string
  | ReadError

text \<open>The errors that are a \<^verbatim>\<open>FileNotFoundError\<close> or of a subclass of it. In Python
  \<^verbatim>\<open>SystemExit\<close> derives from \<^verbatim>\<open>BaseException\<close> alone: it is no \<^verbatim>\<open>FileNotFoundError\<close>, no
  \<^verbatim>\<open>OSError\<close> and no \<^verbatim>\<open>Exception\<close>.\<close>

fun file_not_found_class :: "error \<Rightarrow> bool" where
  "file_not_found_class (FileNotFoundError path) = True"
| "file_not_found_class (SystemExit n) = False"
| "file_not_found_class (KeyError name) = False"
| "file_not_found_class (DateParseError v) = False"
| "file_not_found_class ReadError = False"

subsection \<open>Library functions used by \<^verbatim>\<open>clean_data\<close>\<close>

text \<open>\<^verbatim>\<open>str(n)\<close> for an integer.\<close>

function str_nat :: "nat \<Rightarrow> string" where
  "str_nat n = (if n < 10 then [char_of (48 + n)] else str_nat (n div 10) @ [char_of (48 + n mod 10)])"
  by pat_completeness auto
termination
  by (relation "measure (\<lambda>n. n)") auto

declare str_nat.simps [simp del]

definition str_int :: "int \<Rightarrow> string" where
  "str_int i = (if i < 0 then CHR ''-'' # str_nat (nat (- i)) else str_nat (nat i))"

text \<open>\<^verbatim>\<open>astype(int)\<close> on a float truncates towards zero.\<close>

definition astype_int :: "rat \<Rightarrow> int" where
  "astype_int x = (if 0 \<le> x then \<lfloor>x\<rfloor> else - \<lfloor>- x\<rfloor>)"

text \<open>\<^verbatim>\<open>astype(str)\<close> on a numeric column: a missing cell becomes the text \<^verbatim>\<open>nan\<close>.\<close>

definition astype_str :: "int option \<Rightarrow> string" where
  "astype_str p = (case p of None \<Rightarrow> ''nan'' | Some n \<Rightarrow> str_int n)"

text \<open>\<^verbatim>\<open>Series.round(2)\<close> is numpy's: scale by 100, round to the nearest integer with
  ties to the even one, scale back.\<close>

definition rint :: "rat \<Rightarrow> int" where
  "rint y = (let f = \<lfloor>y\<rfloor>; d = y - of_int f in
     if d < 1 / 2 then f else if 1 / 2 < d then f + 1 else if even f then f else f + 1)"

definition np_round :: "nat \<Rightarrow> rat \<Rightarrow> rat" where
  "np_round n x = of_int (rint (x * 10 ^ n)) / 10 ^ n"

text \<open>\<^verbatim>\<open>pd.cut(x, bins, labels)\<close> with the defaults \<^verbatim>\<open>right=True\<close>,
  \<^verbatim>\<open>include_lowest=False\<close>: the position of \<open>x\<close> among the increasing bin edges is
  \<^verbatim>\<open>bins.searchsorted(x, side='left')\<close>, the number of edges below \<open>x\<close>; position 0
  (at or below the first edge) and position \<open>len(bins)\<close> (above the last edge) give a
  missing value, position \<open>i\<close> gives the category with code \<open>i - 1\<close>.\<close>

definition searchsorted_left :: "rat list \<Rightarrow> rat \<Rightarrow> nat" where
  "searchsorted_left bins x = length (takeWhile (\<lambda>b. b < x) bins)"

definition cut_code :: "rat list \<Rightarrow> rat \<Rightarrow> nat option" where
  "cut_code bins x = (let ids = searchsorted_left bins x in
     if ids = length bins \<or> ids = 0 then None else Some (ids - 1))"

definition cut :: "rat list \<Rightarrow> string list \<Rightarrow> rat \<Rightarrow> string option" where
  "cut bins labels x = map_option (\<lambda>i. labels ! i) (cut_code bins x)"

text \<open>\<^verbatim>\<open>pd.to_datetime\<close> over a column: the first value that does not parse raises.\<close>

fun to_datetime_col :: "(string \<Rightarrow> timestamp option) \<Rightarrow> string list \<Rightarrow> error + timestamp list" where
  "to_datetime_col pd [] = Inr []"
| "to_datetime_col pd (x # xs) =
     (case pd x of
        None \<Rightarrow> Inl (DateParseError x)
      | Some t \<Rightarrow> (case to_datetime_col pd xs of Inl e \<Rightarrow> Inl e | Inr ts \<Rightarrow> Inr (t # ts)))"

text \<open>\<^verbatim>\<open>df[name]\<close> raises \<^verbatim>\<open>KeyError\<close> for a name that is not a column;
  \<^verbatim>\<open>df[name] = ...\<close> replaces the column of that name or appends a new one.\<close>

definition has_column :: "string list \<Rightarrow> string \<Rightarrow> error + unit" where
  "has_column cols name = (if name \<in> set cols then Inr () else Inl (KeyError name))"

fun has_columns :: "string list \<Rightarrow> string list \<Rightarrow> error + unit" where
  "has_columns cols [] = Inr ()"
| "has_columns cols (name # names) =
     (case has_column cols name of Inl e \<Rightarrow> Inl e | Inr u \<Rightarrow> has_columns cols names)"

definition set_column :: "string \<Rightarrow> string list \<Rightarrow> string list" where
  "set_column name cols = (if name \<in> set cols then cols else cols @ [name])"

subsection \<open>\<^verbatim>\<open>clean_data\<close>\<close>

definition discount_bins :: "rat list" where
  "discount_bins = [- 0.01, 0.0, 0.1, 0.2, 0.3, 1.0]"

definition discount_labels :: "string list" where
  "discount_labels = [''No Discount'', ''1-10%'', ''11-20%'', ''21-30%'', ''30%+'']"

definition bucket_of :: "rat \<Rightarrow> string option" where
  "bucket_of d = cut discount_bins discount_labels d"

definition margin_of :: "rat \<Rightarrow> rat \<Rightarrow> rat" where
  "margin_of p s = (if s \<noteq> 0 then np_round 2 (p / s * 100) else 0.0)"

definition unit_revenue_of :: "rat \<Rightarrow> int \<Rightarrow> rat" where
  "unit_revenue_of s q = (if q \<noteq> 0 then np_round 2 (s / of_int q) else 0.0)"

definition ns_per_day :: int where
  "ns_per_day = 86400000000000"

text \<open>Steps 4 to 6 on one row, given its parsed dates and whether the postal code column
  has a missing cell anywhere (\<open>fill\<close>).\<close>

definition clean_row :: "bool \<Rightarrow> raw_row \<Rightarrow> timestamp \<Rightarrow> timestamp \<Rightarrow> cleaned_row" where
  "clean_row fill r od sd =
     (let pc = (if fill then Some (case postal_code r of None \<Rightarrow> 0 | Some n \<Rightarrow> n)
                else postal_code r);
          q = astype_int (quantity r)
      in \<lparr> order_id = order_id r, order_date = od, ship_date = sd, ship_mode = ship_mode r,
           customer_id = customer_id r, segment = segment r, state = state r,
           postal_code = astype_str pc, region = region r, product_id = product_id r,
           category = category r, sub_category = sub_category r,
           product_name = product_name r, sales = sales r, quantity = q,
           discount = discount r, profit = profit r, other_cells = other_cells r,
           delivery_days = (ts_value sd - ts_value od) div ns_per_day,
           profit_margin_pct = margin_of (profit r) (sales r),
           revenue_per_unit = unit_revenue_of (sales r) q,
           order_year = ts_year od,
           order_month = ts_month od,
           order_quarter = (ts_month od - 1) div 3 + 1,
           order_day_of_week = ts_day_name od,
           is_profitable = (0 < profit r),
           discount_bucket = bucket_of (discount r) \<rparr>)"

definition feature_columns :: "string list" where
  "feature_columns = [''delivery_days'', ''profit_margin_pct'', ''revenue_per_unit'',
     ''order_year'', ''order_month'', ''order_quarter'', ''order_day_of_week'',
     ''is_profitable'', ''discount_bucket'']"

definition dupes_removed :: "'r frame \<Rightarrow> nat" where
  "dupes_removed df = length (rows df) - length (drop_duplicates (rows df))"

definition clean_data :: "(string \<Rightarrow> timestamp option) \<Rightarrow> raw_row frame \<Rightarrow> error + cleaned_row frame" where
  "clean_data pd df =
     (let rs = drop_duplicates (rows df);
          cols = normalize_columns (columns df)
      in case has_column cols ''order_date'' of Inl e \<Rightarrow> Inl e | Inr u1 \<Rightarrow>
         case to_datetime_col pd (map order_date rs) of Inl e \<Rightarrow> Inl e | Inr ods \<Rightarrow>
         case has_column cols ''ship_date'' of Inl e \<Rightarrow> Inl e | Inr u2 \<Rightarrow>
         case to_datetime_col pd (map ship_date rs) of Inl e \<Rightarrow> Inl e | Inr sds \<Rightarrow>
         case has_columns cols [''postal_code'', ''quantity'', ''discount'', ''sales'', ''profit'']
           of Inl e \<Rightarrow> Inl e | Inr u3 \<Rightarrow>
         let fill = (\<exists>r \<in> set rs. postal_code r = None)
         in Inr \<lparr> columns = fold set_column feature_columns cols,
                  rows = map (\<lambda>(r, od, sd). clean_row fill r od sd) (zip rs (zip ods sds)) \<rparr>)"

subsection \<open>\<^verbatim>\<open>validate_data\<close>\<close>

text \<open>The figures of the printed report. A mean or a ratio over no rows is NaN (\<open>None\<close>),
  the minimum of no dates is NaT (\<open>None\<close>); neither raises. Of the columns of a cleaned
  row only \<open>discount_bucket\<close> can hold a missing cell, so it is the only column the
  count of missing values can list.\<close>

record report =
  total_records :: nat
  total_columns :: nat
  date_range :: "(int \<times> int) option"
  unique_orders :: nat
  unique_customers :: nat
  unique_products :: nat
  total_revenue :: rat
  total_profit :: rat
  avg_profit_margin :: "rat option"
  null_cols :: "(string \<times> nat) list"
  neg_profit :: nat
  neg_profit_pct :: "rat option"

definition nunique :: "'a list \<Rightarrow> nat" where
  "nunique xs = length (remdups xs)"

definition mean :: "rat list \<Rightarrow> rat option" where
  "mean xs = (if xs = [] then None else Some (sum_list xs / of_nat (length xs)))"

definition min_max_date :: "timestamp list \<Rightarrow> (int \<times> int) option" where
  "min_max_date ts = (case map ts_value ts of
       [] \<Rightarrow> None
     | v # vs \<Rightarrow> Some (fold min vs v div ns_per_day, fold max vs v div ns_per_day))"

text \<open>The columns the report reads by name, in the order it reads them; the first that
  is not a column of the table raises \<^verbatim>\<open>KeyError\<close>. The table itself is what is returned.\<close>

definition validated_columns :: "string list" where
  "validated_columns = [''order_date'', ''order_id'', ''customer_id'', ''product_id'',
     ''sales'', ''profit'', ''profit_margin_pct'']"

definition validate_data :: "cleaned_row frame \<Rightarrow> error + report \<times> cleaned_row frame" where
  "validate_data df =
     (case has_columns (columns df) validated_columns of Inl e \<Rightarrow> Inl e | Inr u \<Rightarrow>
      let rs = rows df;
          nulls = length (filter (\<lambda>r. discount_bucket r = None) rs);
          neg = length (filter (\<lambda>r. profit r < 0) rs)
      in Inr (\<lparr> total_records = length rs,
            total_columns = length (columns df),
            date_range = min_max_date (map order_date rs),
            unique_orders = nunique (map order_id rs),
            unique_customers = nunique (map customer_id rs),
            unique_products = nunique (map product_id rs),
            total_revenue = sum_list (map sales rs),
            total_profit = sum_list (map profit rs),
            avg_profit_margin = mean (map profit_margin_pct rs),
            null_cols = (if 0 < nulls then [(''discount_bucket'', nulls)] else []),
            neg_profit = neg,
            neg_profit_pct = (if rs = [] then None
                              else Some (of_nat neg / of_nat (length rs) * 100)) \<rparr>,
          df))"

subsection \<open>\<^verbatim>\<open>load_to_database\<close>\<close>

text \<open>The copy written to the table \<^verbatim>\<open>sales\<close>: datetime columns and categorical columns
  become text (a missing category is the text \<^verbatim>\<open>nan\<close>), every other column is kept.
  \<^verbatim>\<open>if_exists='replace'\<close> makes the new rows the whole table.\<close>

definition category_str :: "string option \<Rightarrow> string" where
  "category_str b = (case b of None \<Rightarrow> ''nan'' | Some l \<Rightarrow> l)"

definition to_db_row :: "cleaned_row \<Rightarrow> db_row" where
  "to_db_row r =
     \<lparr> order_id = order_id r, order_date = ts_text (order_date r),
       ship_date = ts_text (ship_date r), ship_mode = ship_mode r,
       customer_id = customer_id r, segment = segment r, state = state r,
       postal_code = postal_code r, region = region r, product_id = product_id r,
       category = category r, sub_category = sub_category r,
       product_name = product_name r, sales = sales r, quantity = quantity r,
       discount = discount r, profit = profit r, other_cells = other_cells r,
       delivery_days = delivery_days r,
       profit_margin_pct = profit_margin_pct r,
       revenue_per_unit = revenue_per_unit r,
       order_year = order_year r,
       order_month = order_month r,
       order_quarter = order_quarter r,
       order_day_of_week = order_day_of_week r,
       is_profitable = is_profitable r,
       discount_bucket = category_str (discount_bucket r) \<rparr>"

definition load_to_database :: "cleaned_row frame \<Rightarrow> db_row list" where
  "load_to_database df = map to_db_row (rows df)"

subsection \<open>SQL\<close>

text \<open>SQLite's \<^verbatim>\<open>ROUND(x, n)\<close> rounds half away from zero; \<^verbatim>\<open>AVG\<close> over the rows of a group
  (a group is never empty); arithmetic with a NULL operand is NULL, and so is division by
  zero.\<close>

definition sql_round :: "nat \<Rightarrow> rat \<Rightarrow> rat" where
  "sql_round n x = (if 0 \<le> x then of_int \<lfloor>x * 10 ^ n + 1 / 2\<rfloor> / 10 ^ n
                    else - (of_int \<lfloor>- x * 10 ^ n + 1 / 2\<rfloor> / 10 ^ n))"

definition sql_avg :: "rat list \<Rightarrow> rat" where
  "sql_avg xs = sum_list xs / of_nat (length xs)"

definition sql_sub :: "rat option \<Rightarrow> rat option \<Rightarrow> rat option" where
  "sql_sub a b = (case (a, b) of (Some x, Some y) \<Rightarrow> Some (x - y) | _ \<Rightarrow> None)"

definition sql_mul :: "rat option \<Rightarrow> rat option \<Rightarrow> rat option" where
  "sql_mul a b = (case (a, b) of (Some x, Some y) \<Rightarrow> Some (x * y) | _ \<Rightarrow> None)"

definition sql_div :: "rat option \<Rightarrow> rat option \<Rightarrow> rat option" where
  "sql_div a b = (case (a, b) of
       (Some x, Some y) \<Rightarrow> (if y = 0 then None else Some (x / y))
     | _ \<Rightarrow> None)"

text \<open>\<^verbatim>\<open>GROUP BY\<close>: SQLite sorts the rows by the grouping key, so the groups come out in
  key order, each with its rows in table order. \<^verbatim>\<open>ORDER BY\<close>: SQLite orders the rows by
  the sort key alone and leaves rows of equal key in the order they arrived, ascending or
  descending (its sorter is a stable merge sort; under a \<^verbatim>\<open>LIMIT\<close> it sorts in an index
  keyed by the sort key followed by a sequence number). Text compares by code point.\<close>

definition group_by :: "('r \<Rightarrow> 'k::linorder) \<Rightarrow> 'r list \<Rightarrow> ('k \<times> 'r list) list" where
  "group_by key t = map (\<lambda>k. (k, filter (\<lambda>r. key r = k) t)) (sort (remdups (map key t)))"

definition order_by_asc :: "('r \<Rightarrow> 'k::linorder) \<Rightarrow> 'r list \<Rightarrow> 'r list" where
  "order_by_asc key t = sort_key key t"

definition order_by_desc :: "('r \<Rightarrow> rat) \<Rightarrow> 'r list \<Rightarrow> 'r list" where
  "order_by_desc key t = sort_key (\<lambda>r. - key r) t"

definition limit :: "nat \<Rightarrow> 'r list \<Rightarrow> 'r list" where
  "limit n t = take n t"

subsection \<open>\<^verbatim>\<open>run_analysis_queries\<close>: the queries on products\<close>

record product_row =
  p_product_name :: string
  p_category :: string
  p_sub_category :: string
  p_total_sales :: rat
  p_total_profit :: rat
  p_units_sold :: int
  p_avg_discount :: rat

definition product_groups :: "db_row list \<Rightarrow> product_row list" where
  "product_groups t =
     map (\<lambda>((n, c, s), g).
            \<lparr> p_product_name = n, p_category = c, p_sub_category = s,
              p_total_sales = sql_round 2 (sum_list (map sales g)),
              p_total_profit = sql_round 2 (sum_list (map profit g)),
              p_units_sold = sum_list (map quantity g),
              p_avg_discount = sql_round 2 (sql_avg (map discount g)) \<rparr>)
         (group_by (\<lambda>r. (product_name r, category r, sub_category r)) t)"

definition top_products :: "db_row list \<Rightarrow> product_row list" where
  "top_products t = limit 15 (order_by_desc p_total_profit (product_groups t))"

definition worst_products :: "db_row list \<Rightarrow> product_row list" where
  "worst_products t = limit 15 (order_by_asc p_total_profit (product_groups t))"

subsection \<open>\<^verbatim>\<open>run_analysis_queries\<close>: \<^verbatim>\<open>discount_impact\<close>\<close>

record discount_row =
  d_discount_bucket :: string
  d_transaction_count :: nat
  d_total_revenue :: rat
  d_total_profit :: rat
  d_avg_profit_margin :: rat
  d_loss_count :: nat

definition discount_impact :: "db_row list \<Rightarrow> discount_row list" where
  "discount_impact t =
     order_by_asc d_discount_bucket
       (map (\<lambda>(b, g).
              \<lparr> d_discount_bucket = b,
                d_transaction_count = length g,
                d_total_revenue = sql_round 2 (sum_list (map sales g)),
                d_total_profit = sql_round 2 (sum_list (map profit g)),
                d_avg_profit_margin = sql_round 2 (sql_avg (map profit_margin_pct g)),
                d_loss_count = sum_list (map (\<lambda>r. if profit r < 0 then 1 else 0) g) \<rparr>)
            (group_by discount_bucket t))"

subsection \<open>\<^verbatim>\<open>run_analysis_queries\<close>: \<^verbatim>\<open>yoy_growth\<close>\<close>

record yearly_row =
  y_order_year :: int
  y_revenue :: rat
  y_profit :: rat
  y_orders :: nat

definition yearly :: "db_row list \<Rightarrow> yearly_row list" where
  "yearly t =
     map (\<lambda>(y, g).
            \<lparr> y_order_year = y,
              y_revenue = sql_round 2 (sum_list (map sales g)),
              y_profit = sql_round 2 (sum_list (map profit g)),
              y_orders = nunique (map order_id g) \<rparr>)
         (group_by order_year t)"

record growth_row =
  g_order_year :: int
  g_revenue :: rat
  g_profit :: rat
  g_orders :: nat
  g_revenue_growth_pct :: "rat option"
  g_profit_growth_pct :: "rat option"

text \<open>\<^verbatim>\<open>(cur - prev) / prev * 100\<close>, rounded to 2 places, where \<open>prev\<close> is NULL for a row
  the left join did not match.\<close>

definition growth_pct :: "rat \<Rightarrow> rat option \<Rightarrow> rat option" where
  "growth_pct cur prev =
     map_option (sql_round 2) (sql_mul (sql_div (sql_sub (Some cur) prev) prev) (Some 100))"

definition growth_row_of :: "yearly_row \<Rightarrow> yearly_row option \<Rightarrow> growth_row" where
  "growth_row_of y prev =
     \<lparr> g_order_year = y_order_year y, g_revenue = y_revenue y, g_profit = y_profit y,
       g_orders = y_orders y,
       g_revenue_growth_pct = growth_pct (y_revenue y) (map_option y_revenue prev),
       g_profit_growth_pct = growth_pct (y_profit y) (map_option y_profit prev) \<rparr>"

text \<open>\<^verbatim>\<open>FROM yearly y LEFT JOIN yearly prev ON y.order_year = prev.order_year + 1\<close>: a row
  of \<open>y\<close> with each matching row of \<open>prev\<close>, or once with NULLs when none matches.\<close>

definition left_join_prev :: "yearly_row list \<Rightarrow> (yearly_row \<times> yearly_row option) list" where
  "left_join_prev ys =
     concat (map (\<lambda>y. case filter (\<lambda>p. y_order_year y = y_order_year p + 1) ys of
                         [] \<Rightarrow> [(y, None)]
                       | ps \<Rightarrow> map (\<lambda>p. (y, Some p)) ps) ys)"

definition yoy_growth :: "db_row list \<Rightarrow> growth_row list" where
  "yoy_growth t =
     order_by_asc g_order_year
       (map (\<lambda>(y, prev). growth_row_of y prev) (left_join_prev (yearly t)))"

record results =
  r_top_products :: "product_row list"
  r_worst_products :: "product_row list"
  r_discount_impact :: "discount_row list"
  r_yoy_growth :: "growth_row list"

text \<open>The four queries of the catalogue modelled here, run on the table \<^verbatim>\<open>sales\<close>.\<close>

definition run_analysis_queries :: "db_row list \<Rightarrow> results" where
  "run_analysis_queries t =
     \<lparr> r_top_products = top_products t, r_worst_products = worst_products t,
       r_discount_impact = discount_impact t, r_yoy_growth = yoy_growth t \<rparr>"

subsection \<open>\<^verbatim>\<open>extract_data\<close> and the run\<close>

text \<open>What the run prints is a list of messages: \<^verbatim>\<open>File not found: {filepath}\<close>,
  \<^verbatim>\<open>Extracted {rows} records with {cols} columns.\<close> and \<^verbatim>\<open>Pipeline Error: {e}\<close>. The file
  system maps the paths that exist to their contents.\<close>

datatype message =
    File_not_found string
  | Extracted nat nat
  | Pipeline_error error

definition extract_data ::
  "(string \<rightharpoonup> string) \<Rightarrow> (string \<Rightarrow> error + raw_row frame) \<Rightarrow> string
     \<Rightarrow> message list \<times> (error + raw_row frame)" where
  "extract_data fs read_csv filepath =
     (case fs filepath of
        None \<Rightarrow> ([File_not_found filepath], Inl (SystemExit 1))
      | Some content \<Rightarrow>
          (case read_csv content of
             Inl e \<Rightarrow> ([], Inl e)
           | Inr df \<Rightarrow> ([Extracted (length (rows df)) (length (columns df))], Inr df)))"

definition DATA_PATH :: string where
  "DATA_PATH = ''../archive/Sample - Superstore.csv''"

text \<open>The state a run leaves behind: what it printed, the table \<^verbatim>\<open>sales\<close> of the database
  (\<open>None\<close> while no table exists), the query results it wrote, and the exit status.\<close>

record run =
  printed :: "message list"
  sales_table :: "db_row list option"
  query_results :: "results option"
  exit_status :: int

text \<open>\<^verbatim>\<open>run_pipeline\<close> under the handler of \<^verbatim>\<open>main.py\<close>: \<^verbatim>\<open>SystemExit\<close> ends the process with
  its status; any other exception is printed and the process exits with status 1. The
  charts and the PDF report that follow the queries are not modelled: the run ends with
  the queries.\<close>

definition fail :: "message list \<Rightarrow> db_row list option \<Rightarrow> error \<Rightarrow> run" where
  "fail out db e =
     (case e of
        SystemExit n \<Rightarrow> \<lparr> printed = out, sales_table = db, query_results = None, exit_status = n \<rparr>
      | _ \<Rightarrow> \<lparr> printed = out @ [Pipeline_error e], sales_table = db, query_results = None,
               exit_status = 1 \<rparr>)"

definition run_pipeline ::
  "(string \<rightharpoonup> string) \<Rightarrow> (string \<Rightarrow> error + raw_row frame) \<Rightarrow> (string \<Rightarrow> timestamp option)
     \<Rightarrow> db_row list option \<Rightarrow> run" where
  "run_pipeline fs read_csv pd db =
     (case extract_data fs read_csv DATA_PATH of
        (out, Inl e) \<Rightarrow> fail out db e
      | (out, Inr raw) \<Rightarrow>
          (case clean_data pd raw of
             Inl e \<Rightarrow> fail out db e
           | Inr df \<Rightarrow>
               (case validate_data df of
                  Inl e \<Rightarrow> fail out db e
                | Inr (rep, df') \<Rightarrow>
                    (let t = load_to_database df'
                     in \<lparr> printed = out, sales_table = Some t,
                          query_results = Some (run_analysis_queries t), exit_status = 0 \<rparr>))))"

subsection \<open>Example inputs\<close>

text \<open>A date parser for four dates written month first, as \<^verbatim>\<open>pd.to_datetime\<close> reads them
  with \<^verbatim>\<open>dayfirst=False\<close>.\<close>

definition example_pd :: "string \<Rightarrow> timestamp option" where
  "example_pd s =
     (if s = ''11/8/2016'' then
        Some \<lparr> ts_value = 1478563200000000000, ts_year = 2016, ts_month = 11,
               ts_day_name = ''Tuesday'', ts_text = ''2016-11-08'' \<rparr>
      else if s = ''11/11/2016'' then
        Some \<lparr> ts_value = 1478822400000000000, ts_year = 2016, ts_month = 11,
               ts_day_name = ''Friday'', ts_text = ''2016-11-11'' \<rparr>
      else if s = ''6/12/2017'' then
        Some \<lparr> ts_value = 1497225600000000000, ts_year = 2017, ts_month = 6,
               ts_day_name = ''Monday'', ts_text = ''2017-06-12'' \<rparr>
      else if s = ''6/16/2017'' then
        Some \<lparr> ts_value = 1497571200000000000, ts_year = 2017, ts_month = 6,
               ts_day_name = ''Friday'', ts_text = ''2017-06-16'' \<rparr>
      else None)"

definition example_columns :: "string list" where
  "example_columns = [''Row ID'', ''Order ID'', ''Order Date'', ''Ship Date'', ''Ship Mode'',
     ''Customer ID'', ''Customer Name'', ''Segment'', ''Country'', ''City'', ''State'',
     ''Postal Code'', ''Region'', ''Product ID'', ''Category'', ''Sub-Category'',
     ''Product Name'', ''Sales'', ''Quantity'', ''Discount'', ''Profit'']"

text \<open>A raw row with the given row id, dates, product name, sales, profit, quantity and
  discount.\<close>

definition example_row ::
  "string \<Rightarrow> string \<Rightarrow> string \<Rightarrow> string \<Rightarrow> rat \<Rightarrow> rat \<Rightarrow> rat \<Rightarrow> rat \<Rightarrow> raw_row" where
  "example_row rid od sd name s p q d =
     \<lparr> order_id = ''CA-'' @ rid, order_date = od, ship_date = sd,
       ship_mode = ''Second Class'', customer_id = ''CG-12520'', segment = ''Consumer'',
       state = ''Kentucky'', postal_code = Some 42420, region = ''South'',
       product_id = ''FUR-'' @ name, category = ''Furniture'', sub_category = ''Bookcases'',
       product_name = name, sales = s, quantity = q, discount = d, profit = p,
       other_cells = [rid, ''Claire Gute'', ''United States'', ''Henderson''] \<rparr>"

definition frame_2016 :: "raw_row list \<Rightarrow> raw_row frame" where
  "frame_2016 rs = \<lparr> columns = example_columns, rows = rs \<rparr>"

text \<open>The three rows of the end-to-end example of the specification.\<close>

definition example_raw :: "raw_row frame" where
  "example_raw = frame_2016
     [example_row ''1'' ''11/8/2016'' ''11/11/2016'' ''Bookcase'' 100 20 2 0.0,
      example_row ''2'' ''11/8/2016'' ''11/11/2016'' ''Bookcase'' 0 0 1 0.15,
      example_row ''3'' ''11/8/2016'' ''11/11/2016'' ''Bookcase'' 50 (- 10) 5 0.25]"

text \<open>A row with a discount above 1, and one with a quantity of 0.\<close>

definition odd_raw :: "raw_row frame" where
  "odd_raw = frame_2016
     [example_row ''1'' ''11/8/2016'' ''11/11/2016'' ''Bookcase'' 100 20 2 1.5,
      example_row ''2'' ''11/8/2016'' ''11/11/2016'' ''Bookcase'' 0 0 0 0.15]"



text \<open>Two products with the same total profit; two products with different total
  profits; and thirty products with thirty different profits.\<close>

definition tied_raw :: "raw_row frame" where
  "tied_raw = frame_2016
     [example_row ''1'' ''11/8/2016'' ''11/11/2016'' ''Bookcase'' 100 20 2 0.0,
      example_row ''2'' ''11/8/2016'' ''11/11/2016'' ''Chair'' 80 20 1 0.0]"

definition two_products_raw :: "raw_row frame" where
  "two_products_raw = frame_2016
     [example_row ''1'' ''11/8/2016'' ''11/11/2016'' ''Bookcase'' 100 20 2 0.0,
      example_row ''2'' ''11/8/2016'' ''11/11/2016'' ''Chair'' 80 (- 10) 1 0.0]"

definition thirty_raw :: "raw_row frame" where
  "thirty_raw = frame_2016
     (map (\<lambda>i. example_row (str_nat i) ''11/8/2016'' ''11/11/2016'' (''P'' @ str_nat i)
                 100 (of_nat i) 1 0.0) [1 ..< 31])"


text \<open>The cleaned frame and the table \<^verbatim>\<open>sales\<close> that the pipeline makes of a raw frame
  with \<open>example_pd\<close>; empty if cleaning or validation raises.\<close>

definition cleaned_of :: "raw_row frame \<Rightarrow> cleaned_row frame" where
  "cleaned_of raw = (case clean_data example_pd raw of
       Inr df \<Rightarrow> df | Inl e \<Rightarrow> \<lparr> columns = [], rows = [] \<rparr>)"

definition table_of :: "raw_row frame \<Rightarrow> db_row list" where
  "table_of raw = (case validate_data (cleaned_of raw) of
       Inr (rep, df) \<Rightarrow> load_to_database df | Inl e \<Rightarrow> [])"

section \<open>Column-name normalization\<close>

lemma of_char_lower_char:
  "of_char (lower_char c) = (if is_upper c then of_char c + 32 else (of_char c :: nat))"
  unfolding lower_char_def is_upper_def Let_def by auto

lemma lower_char_not_upper: "\<not> is_upper (lower_char c)"
proof (cases "is_upper c")
  case True
  then have "(of_char (lower_char c) :: nat) = of_char c + 32"
    by (simp add: of_char_lower_char)
  with True show ?thesis unfolding is_upper_def Let_def by auto
next
  case False
  then show ?thesis by (simp add: lower_char_def)
qed

lemma lower_char_idem: "lower_char (lower_char c) = lower_char c"
  using lower_char_not_upper [of c] by (simp add: lower_char_def)

lemma isspace_lower_char: "isspace (lower_char c) = isspace c"
proof (cases "is_upper c")
  case True
  then have "(of_char (lower_char c) :: nat) = of_char c + 32"
    by (simp add: of_char_lower_char)
  with True show ?thesis unfolding is_upper_def isspace_def Let_def by auto
next
  case False
  then show ?thesis by (simp add: lower_char_def)
qed

lemma lower_char_eq_space: "lower_char c = CHR '' '' \<longleftrightarrow> c = CHR '' ''"
proof (cases "is_upper c")
  case True
  then have "(of_char (lower_char c) :: nat) = of_char c + 32"
    by (simp add: of_char_lower_char)
  with True have "of_char (lower_char c) \<noteq> (32::nat)" "of_char c \<noteq> (32::nat)"
    unfolding is_upper_def Let_def by auto
  then show ?thesis by auto
next
  case False
  then show ?thesis by (simp add: lower_char_def)
qed

lemma lower_char_eq_hyphen: "lower_char c = CHR ''-'' \<longleftrightarrow> c = CHR ''-''"
proof (cases "is_upper c")
  case True
  then have "(of_char (lower_char c) :: nat) = of_char c + 32"
    by (simp add: of_char_lower_char)
  with True have "of_char (lower_char c) \<noteq> (45::nat)" "of_char c \<noteq> (45::nat)"
    unfolding is_upper_def Let_def by auto
  then show ?thesis by auto
next
  case False
  then show ?thesis by (simp add: lower_char_def)
qed

lemma lower_char_underscore: "lower_char (CHR ''_'') = CHR ''_''"
  by (simp add: lower_char_def is_upper_def)

lemma isspace_separators:
  "\<not> isspace (CHR ''_'')" "\<not> isspace (CHR ''-'')" "isspace (CHR '' '')"
  by (simp_all add: isspace_def)

text \<open>After the strip, the three remaining steps act on each character alone.\<close>

lemma normalize_name_map:
  "normalize_name s =
     map (\<lambda>c. lower_char (if c = CHR '' '' \<or> c = CHR ''-'' then CHR ''_'' else c)) (strip s)"
  by (simp add: normalize_name_def lower_def replace_def)

lemma strip_ends: "strip s = [] \<or> (\<not> isspace (hd (strip s)) \<and> \<not> isspace (last (strip s)))"
proof (cases "dropWhile isspace s")
  case Nil
  show ?thesis unfolding strip_def Nil by simp
next
  case (Cons b ys)
  then have b: "\<not> isspace b"
    by (metis hd_dropWhile list.sel(1) list.distinct(1))
  have "dropWhile isspace (rev ys @ [b]) = dropWhile isspace (rev ys) @ [b]"
    using b by (simp add: dropWhile_append)
  then have s: "strip s = b # rev (dropWhile isspace (rev ys))"
    by (simp add: strip_def Cons)
  have "last (strip s) = hd (dropWhile isspace (rev (dropWhile isspace s)))"
    unfolding strip_def by (simp add: last_rev)
  moreover have "dropWhile isspace (rev (dropWhile isspace s)) \<noteq> []"
    using s by (auto simp: strip_def)
  ultimately have "\<not> isspace (last (strip s))"
    by (simp add: hd_dropWhile)
  with s b show ?thesis by simp
qed

lemma dropWhile_hd_id: "\<not> P (hd xs) \<Longrightarrow> xs \<noteq> [] \<Longrightarrow> dropWhile P xs = xs"
  by (cases xs) auto

lemma strip_fixed:
  assumes "t = [] \<or> (\<not> isspace (hd t) \<and> \<not> isspace (last t))"
  shows "strip t = t"
proof (cases t)
  case Nil
  then show ?thesis by (simp add: strip_def)
next
  case (Cons a as)
  with assms have a: "\<not> isspace a" and l: "\<not> isspace (last t)" by auto
  from a Cons have 1: "dropWhile isspace t = t" by simp
  have "hd (rev t) = last t" using Cons by (simp add: hd_rev)
  with l have "\<not> isspace (hd (rev t))" by simp
  moreover from Cons have "rev t \<noteq> []" by simp
  ultimately have "dropWhile isspace (rev t) = rev t" by (rule dropWhile_hd_id)
  with 1 show ?thesis by (simp add: strip_def)
qed

lemma normalize_name_idem: "normalize_name (normalize_name s) = normalize_name s"
proof -
  let ?f = "\<lambda>c. lower_char (if c = CHR '' '' \<or> c = CHR ''-'' then CHR ''_'' else c)"
  let ?t = "map ?f (strip s)"
  have sp: "\<not> isspace (?f c)" if "\<not> isspace c" for c
    using that by (auto simp: isspace_lower_char isspace_separators)
  have idem: "?f (?f c) = ?f c" for c
    by (auto simp: lower_char_idem lower_char_underscore lower_char_eq_space
        lower_char_eq_hyphen)
  have "?t = [] \<or> (\<not> isspace (hd ?t) \<and> \<not> isspace (last ?t))"
    using strip_ends [of s] by (auto simp: hd_map last_map sp)
  then have "strip ?t = ?t" by (rule strip_fixed)
  then have "normalize_name ?t = map ?f ?t"
    by (simp only: normalize_name_map)
  also have "\<dots> = ?t" using idem by simp
  finally show ?thesis by (simp only: normalize_name_map)
qed

text \<open>C7. Normalizing the column names (trim, replace spaces and hyphens by underscores,
  lower-case) is a function of the names, and normalizing a list of names twice gives the
  same names as normalizing it once.\<close>

theorem normalize_columns_idempotent:
  "normalize_columns (normalize_columns cols) = normalize_columns cols"
  by (simp add: normalize_columns_def normalize_name_idem)

section \<open>Deduplication\<close>

lemma keep_unmarked_Nil: "keep_unmarked [] ds = []"
  by (simp add: keep_unmarked_def)

lemma keep_unmarked_Cons:
  "keep_unmarked (r # rs) (d # ds) =
     (if d then keep_unmarked rs ds else r # keep_unmarked rs ds)"
  by (simp add: keep_unmarked_def)

lemma set_keep_unmarked: "set (keep_unmarked rs (duplicated seen rs)) = set rs - set seen"
  by (induction rs arbitrary: seen) (auto simp: keep_unmarked_Cons keep_unmarked_Nil)

lemma distinct_keep_unmarked: "distinct (keep_unmarked rs (duplicated seen rs))"
  by (induction rs arbitrary: seen)
    (auto simp: keep_unmarked_Cons keep_unmarked_Nil set_keep_unmarked)

lemma keep_unmarked_distinct:
  "distinct rs \<Longrightarrow> set rs \<inter> set seen = {} \<Longrightarrow> keep_unmarked rs (duplicated seen rs) = rs"
  by (induction rs arbitrary: seen) (auto simp: keep_unmarked_Cons keep_unmarked_Nil)

lemma set_drop_duplicates: "set (drop_duplicates rs) = set rs"
  by (simp add: drop_duplicates_def set_keep_unmarked)

lemma distinct_drop_duplicates: "distinct (drop_duplicates rs)"
  by (simp add: drop_duplicates_def distinct_keep_unmarked)

lemma drop_duplicates_distinct: "distinct rs \<Longrightarrow> drop_duplicates rs = rs"
  by (simp add: drop_duplicates_def keep_unmarked_distinct)

text \<open>C8. Deduplication drops a row only when an equal row (equal in every column) is
  kept: the rows that remain are pairwise different and are, as a set, the rows of the
  input. It is idempotent, and on a table without exact duplicates it returns the table
  and the count of removed rows is zero.\<close>

theorem drop_duplicates_exact_idempotent:
  "set (drop_duplicates rs) = set rs \<and> distinct (drop_duplicates rs)
   \<and> drop_duplicates (drop_duplicates rs) = drop_duplicates rs
   \<and> (distinct rs \<longrightarrow>
        drop_duplicates rs = rs \<and> dupes_removed \<lparr> columns = cols, rows = rs \<rparr> = 0)"
  by (simp add: set_drop_duplicates distinct_drop_duplicates drop_duplicates_distinct
      dupes_removed_def)

theorem drop_duplicates_exact_idempotent_witness:
  "distinct [1, 2, 3 :: nat] \<and> drop_duplicates [1, 2, 3 :: nat] = [1, 2, 3]
   \<and> dupes_removed \<lparr> columns = [''a''], rows = [1, 2, 3 :: nat] \<rparr> = 0
   \<and> drop_duplicates [1, 2, 1, 3 :: nat] = [1, 2, 3]"
  using drop_duplicates_exact_idempotent [of "[1, 2, 3 :: nat]" "[''a'']"]
  by (simp add: drop_duplicates_def keep_unmarked_def)

section \<open>Discount buckets and the rows of the cleaned table\<close>

lemma cut_code_discount:
  "cut_code discount_bins d =
     (if d \<le> - 0.01 then None else if d \<le> 0 then Some 0 else if d \<le> 0.1 then Some 1
      else if d \<le> 0.2 then Some 2 else if d \<le> 0.3 then Some 3
      else if d \<le> 1 then Some 4 else None)"
  by (simp add: cut_code_def searchsorted_left_def discount_bins_def)

lemma bucket_of_cases:
  "bucket_of d =
     (if d \<le> - 0.01 then None else if d \<le> 0 then Some ''No Discount''
      else if d \<le> 0.1 then Some ''1-10%'' else if d \<le> 0.2 then Some ''11-20%''
      else if d \<le> 0.3 then Some ''21-30%'' else if d \<le> 1 then Some ''30%+'' else None)"
  by (simp add: bucket_of_def cut_def cut_code_discount discount_labels_def)

lemma to_datetime_col_length:
  "to_datetime_col pd xs = Inr ts \<Longrightarrow> length ts = length xs"
  by (induction xs arbitrary: ts) (auto split: option.splits sum.splits)

lemma to_datetime_col_ok:
  "\<forall>x \<in> set xs. pd x \<noteq> None \<Longrightarrow> \<exists>ts. to_datetime_col pd xs = Inr ts"
  by (induction xs) auto

lemma has_columns_ok:
  "set names \<subseteq> set cols \<Longrightarrow> has_columns cols names = Inr ()"
  by (induction names) (auto simp: has_column_def)

lemma clean_data_rows:
  assumes "clean_data pd df = Inr df'"
  shows "\<exists>ods sds fill. length ods = length (drop_duplicates (rows df))
           \<and> length sds = length (drop_duplicates (rows df))
           \<and> rows df' = map (\<lambda>(r, od, sd). clean_row fill r od sd)
                           (zip (drop_duplicates (rows df)) (zip ods sds))"
proof -
  from assms obtain ods sds where
    o: "to_datetime_col pd (map order_date (drop_duplicates (rows df))) = Inr ods"
    and s: "to_datetime_col pd (map ship_date (drop_duplicates (rows df))) = Inr sds"
    and r: "rows df' = map (\<lambda>(r, od, sd).
                 clean_row (\<exists>r \<in> set (drop_duplicates (rows df)). postal_code r = None) r od sd)
               (zip (drop_duplicates (rows df)) (zip ods sds))"
    unfolding clean_data_def Let_def by (auto split: sum.splits)
  from o s have "length ods = length (drop_duplicates (rows df))"
    "length sds = length (drop_duplicates (rows df))"
    by (auto dest: to_datetime_col_length)
  with r show ?thesis by blast
qed

lemma clean_data_map:
  assumes "clean_data pd df = Inr df'"
    and "\<And>fill r od sd. f (clean_row fill r od sd) = g r"
  shows "map f (rows df') = map g (drop_duplicates (rows df))"
proof -
  from clean_data_rows [OF assms(1)] obtain ods sds fill where
    l: "length ods = length (drop_duplicates (rows df))"
       "length sds = length (drop_duplicates (rows df))"
    and r: "rows df' = map (\<lambda>(r, od, sd). clean_row fill r od sd)
                           (zip (drop_duplicates (rows df)) (zip ods sds))"
    by blast
  have "map f (rows df') = map (g \<circ> fst) (zip (drop_duplicates (rows df)) (zip ods sds))"
    unfolding r by (simp add: assms(2) case_prod_unfold comp_def)
  also have "\<dots> = map g (map fst (zip (drop_duplicates (rows df)) (zip ods sds)))"
    by simp
  also have "map fst (zip (drop_duplicates (rows df)) (zip ods sds)) = drop_duplicates (rows df)"
    using l by (simp add: map_fst_zip)
  finally show ?thesis .
qed

lemma clean_data_row:
  assumes "clean_data pd df = Inr df'" and "c \<in> set (rows df')"
  shows "\<exists>fill r od sd. r \<in> set (rows df) \<and> c = clean_row fill r od sd"
proof -
  from clean_data_rows [OF assms(1)] obtain ods sds fill where
    r: "rows df' = map (\<lambda>(r, od, sd). clean_row fill r od sd)
                           (zip (drop_duplicates (rows df)) (zip ods sds))"
    by blast
  with assms(2) obtain r od sd where "(r, od, sd) \<in> set (zip (drop_duplicates (rows df)) (zip ods sds))"
    and c: "c = clean_row fill r od sd" by auto
  then have "r \<in> set (drop_duplicates (rows df))" by (auto dest: set_zip_leftD)
  then have "r \<in> set (rows df)" by (simp add: set_drop_duplicates)
  with c show ?thesis by blast
qed

lemma clean_data_succeeds:
  assumes "set [''order_date'', ''ship_date'', ''postal_code'', ''quantity'', ''discount'',
             ''sales'', ''profit''] \<subseteq> set (normalize_columns (columns df))"
    and "\<forall>r \<in> set (rows df). pd (order_date r) \<noteq> None \<and> pd (ship_date r) \<noteq> None"
  shows "\<exists>df'. clean_data pd df = Inr df'"
proof -
  let ?rs = "drop_duplicates (rows df)"
  have "\<forall>x \<in> set (map order_date ?rs). pd x \<noteq> None" "\<forall>x \<in> set (map ship_date ?rs). pd x \<noteq> None"
    using assms(2) by (auto simp: set_drop_duplicates)
  then obtain ods sds where "to_datetime_col pd (map order_date ?rs) = Inr ods"
    "to_datetime_col pd (map ship_date ?rs) = Inr sds"
    using to_datetime_col_ok by blast
  moreover have "has_columns (normalize_columns (columns df))
     [''postal_code'', ''quantity'', ''discount'', ''sales'', ''profit''] = Inr ()"
    using assms(1) by (intro has_columns_ok) auto
  moreover have "has_column (normalize_columns (columns df)) ''order_date'' = Inr ()"
    "has_column (normalize_columns (columns df)) ''ship_date'' = Inr ()"
    using assms(1) by (auto simp: has_column_def)
  ultimately show ?thesis
    unfolding clean_data_def Let_def by simp
qed

section \<open>The example frames\<close>

lemma normalize_example_columns:
  "normalize_columns example_columns =
     [''row_id'', ''order_id'', ''order_date'', ''ship_date'', ''ship_mode'', ''customer_id'',
      ''customer_name'', ''segment'', ''country'', ''city'', ''state'', ''postal_code'',
      ''region'', ''product_id'', ''category'', ''sub_category'', ''product_name'', ''sales'',
      ''quantity'', ''discount'', ''profit'']"
  by code_simp

lemma example_pd_dates:
  "example_pd ''11/8/2016'' \<noteq> None" "example_pd ''11/11/2016'' \<noteq> None"
  "example_pd ''6/12/2017'' \<noteq> None" "example_pd ''6/16/2017'' \<noteq> None"
  by (simp_all add: example_pd_def)

lemma frame_2016_ok:
  assumes "\<forall>r \<in> set rs. order_date r \<in> {''11/8/2016'', ''6/12/2017''}
             \<and> ship_date r \<in> {''11/11/2016'', ''6/16/2017''}"
  shows "clean_data example_pd (frame_2016 rs) = Inr (cleaned_of (frame_2016 rs))"
proof -
  have "\<forall>r \<in> set (rows (frame_2016 rs)).
          example_pd (order_date r) \<noteq> None \<and> example_pd (ship_date r) \<noteq> None"
    using assms example_pd_dates by (auto simp: frame_2016_def)
  moreover have "set [''order_date'', ''ship_date'', ''postal_code'', ''quantity'', ''discount'',
             ''sales'', ''profit''] \<subseteq> set (normalize_columns (columns (frame_2016 rs)))"
    by (simp add: frame_2016_def normalize_example_columns)
  ultimately obtain df where "clean_data example_pd (frame_2016 rs) = Inr df"
    using clean_data_succeeds by blast
  then show ?thesis by (simp add: cleaned_of_def)
qed

lemma example_row_sel:
  "order_date (example_row rid od sd name s p q d) = od"
  "ship_date (example_row rid od sd name s p q d) = sd"
  "product_name (example_row rid od sd name s p q d) = name"
  "sales (example_row rid od sd name s p q d) = s"
  "profit (example_row rid od sd name s p q d) = p"
  "quantity (example_row rid od sd name s p q d) = q"
  "discount (example_row rid od sd name s p q d) = d"
  by (simp_all add: example_row_def)

lemma example_row_rid:
  "example_row rid od sd name s p q d = example_row rid' od' sd' name' s' p' q' d' \<Longrightarrow> rid = rid'"
  by (simp add: example_row_def)

lemma odd_raw_ok: "clean_data example_pd odd_raw = Inr (cleaned_of odd_raw)"
  unfolding odd_raw_def by (rule frame_2016_ok) (simp add: example_row_sel)

lemma odd_raw_rows:
  "drop_duplicates (rows odd_raw) =
     [example_row ''1'' ''11/8/2016'' ''11/11/2016'' ''Bookcase'' 100 20 2 1.5,
      example_row ''2'' ''11/8/2016'' ''11/11/2016'' ''Bookcase'' 0 0 0 0.15]"
  unfolding odd_raw_def frame_2016_def
  by (simp add: drop_duplicates_def keep_unmarked_def) (auto dest: example_row_rid)

section \<open>Derived columns\<close>

lemma clean_row_sel:
  "sales (clean_row fill r od sd) = sales r"
  "profit (clean_row fill r od sd) = profit r"
  "discount (clean_row fill r od sd) = discount r"
  "quantity (clean_row fill r od sd) = astype_int (quantity r)"
  "profit_margin_pct (clean_row fill r od sd) = margin_of (profit r) (sales r)"
  "revenue_per_unit (clean_row fill r od sd) = unit_revenue_of (sales r) (astype_int (quantity r))"
  "discount_bucket (clean_row fill r od sd) = bucket_of (discount r)"
  "order_year (clean_row fill r od sd) = ts_year od"
  by (simp_all add: clean_row_def Let_def)

text \<open>C1. For a discount \<open>d\<close> in [0, 1] the bucket that \<^verbatim>\<open>clean_data\<close> derives is one of
  the five labels, the label is decided by membership in the half-open intervals
  (-0.01, 0], (0, 0.1], (0.1, 0.2], (0.2, 0.3], (0.3, 1.0], and a larger discount in
  [0, 1] never gets a category of lower code (the categories are ordered as the
  labels are listed).\<close>

theorem discount_bucket_labels_monotone:
  assumes "0 \<le> d" and "d \<le> 1"
  shows "discount_bucket (clean_row fill r od sd) = bucket_of (discount r)
    \<and> bucket_of d \<in> Some ` set discount_labels
    \<and> (bucket_of d = Some ''No Discount'' \<longleftrightarrow> - 0.01 < d \<and> d \<le> 0)
    \<and> (bucket_of d = Some ''1-10%'' \<longleftrightarrow> 0 < d \<and> d \<le> 0.1)
    \<and> (bucket_of d = Some ''11-20%'' \<longleftrightarrow> 0.1 < d \<and> d \<le> 0.2)
    \<and> (bucket_of d = Some ''21-30%'' \<longleftrightarrow> 0.2 < d \<and> d \<le> 0.3)
    \<and> (bucket_of d = Some ''30%+'' \<longleftrightarrow> 0.3 < d \<and> d \<le> 1.0)
    \<and> (\<forall>d'. d \<le> d' \<and> d' \<le> 1 \<longrightarrow>
          (\<exists>i j. cut_code discount_bins d = Some i \<and> bucket_of d = Some (discount_labels ! i)
               \<and> cut_code discount_bins d' = Some j \<and> bucket_of d' = Some (discount_labels ! j)
               \<and> i \<le> j))"
proof -
  have 1: "discount_bucket (clean_row fill r od sd) = bucket_of (discount r)"
    by (simp add: clean_row_sel)
  have 2: "bucket_of d \<in> Some ` set discount_labels"
    using assms by (simp add: bucket_of_cases discount_labels_def)
  have 3: "bucket_of d = Some ''No Discount'' \<longleftrightarrow> - 0.01 < d \<and> d \<le> 0"
    "bucket_of d = Some ''1-10%'' \<longleftrightarrow> 0 < d \<and> d \<le> 0.1"
    "bucket_of d = Some ''11-20%'' \<longleftrightarrow> 0.1 < d \<and> d \<le> 0.2"
    "bucket_of d = Some ''21-30%'' \<longleftrightarrow> 0.2 < d \<and> d \<le> 0.3"
    "bucket_of d = Some ''30%+'' \<longleftrightarrow> 0.3 < d \<and> d \<le> 1.0"
    by (auto simp: bucket_of_cases)
  have 4: "\<exists>i j. cut_code discount_bins d = Some i \<and> bucket_of d = Some (discount_labels ! i)
               \<and> cut_code discount_bins d' = Some j \<and> bucket_of d' = Some (discount_labels ! j)
               \<and> i \<le> j" if "d \<le> d'" "d' \<le> 1" for d'
    using assms that by (auto simp: bucket_of_def cut_def cut_code_discount)
  from 1 2 3 4 show ?thesis by blast
qed

theorem discount_bucket_labels_monotone_witness:
  "(0::rat) \<le> 0.15 \<and> (0.15::rat) \<le> 1 \<and> (0.15::rat) \<le> 0.25 \<and> (0.25::rat) \<le> 1
   \<and> bucket_of 0.15 = Some ''11-20%'' \<and> bucket_of 0.25 = Some ''21-30%''
   \<and> cut_code discount_bins 0.15 = Some 2 \<and> cut_code discount_bins 0.25 = Some 3"
proof -
  have h: "(0::rat) \<le> 0.15" "(0.15::rat) \<le> 1" by simp_all
  note t = discount_bucket_labels_monotone [OF h, THEN conjunct2, THEN conjunct1]
  have e: "bucket_of 0.15 = Some ''11-20%''" "bucket_of 0.25 = Some ''21-30%''"
    "cut_code discount_bins 0.15 = Some 2" "cut_code discount_bins 0.25 = Some 3"
    by (simp_all add: cut_code_discount bucket_of_cases)
  from t e show ?thesis by simp
qed

text \<open>C10. In the table that \<^verbatim>\<open>clean_data\<close> returns, the bucket of a row is the bucket
  of its discount, and it is missing exactly when the discount is at most -0.01 or above
  1.0: a row whose discount lies outside (-0.01, 1.0] gets no label.\<close>

theorem discount_out_of_range_unbucketed:
  assumes "clean_data pd df = Inr df'" and "r \<in> set (rows df')"
  shows "discount_bucket r = bucket_of (discount r)
    \<and> (discount_bucket r = None \<longleftrightarrow> discount r \<le> - 0.01 \<or> 1.0 < discount r)"
proof -
  from clean_data_row [OF assms] obtain fill raw od sd where "r = clean_row fill raw od sd"
    by blast
  then show ?thesis by (simp add: clean_row_sel bucket_of_cases)
qed

lemma odd_cleaned_length: "length (rows (cleaned_of odd_raw)) = 2"
  using clean_data_map [OF odd_raw_ok, of "\<lambda>r. ()" "\<lambda>r. ()"] odd_raw_rows
  by (metis length_map length_Cons list.size(3) One_nat_def Suc_1)

theorem discount_out_of_range_unbucketed_witness:
  "clean_data example_pd odd_raw = Inr (cleaned_of odd_raw)
   \<and> hd (rows (cleaned_of odd_raw)) \<in> set (rows (cleaned_of odd_raw))
   \<and> discount (hd (rows (cleaned_of odd_raw))) = 1.5
   \<and> discount_bucket (hd (rows (cleaned_of odd_raw))) = None"
proof -
  have ne: "rows (cleaned_of odd_raw) \<noteq> []" using odd_cleaned_length by auto
  then have m: "hd (rows (cleaned_of odd_raw)) \<in> set (rows (cleaned_of odd_raw))" by simp
  have "map discount (rows (cleaned_of odd_raw)) = map discount (drop_duplicates (rows odd_raw))"
    by (rule clean_data_map [OF odd_raw_ok]) (simp add: clean_row_sel)
  then have "map discount (rows (cleaned_of odd_raw)) = [1.5, 0.15]"
    by (simp add: odd_raw_rows example_row_sel)
  with ne have d: "discount (hd (rows (cleaned_of odd_raw))) = 1.5"
    by (cases "rows (cleaned_of odd_raw)") auto
  from discount_out_of_range_unbucketed [OF odd_raw_ok m] d
  have "discount_bucket (hd (rows (cleaned_of odd_raw))) = None" by (simp add: bucket_of_cases)
  with odd_raw_ok m d show ?thesis by simp
qed




section \<open>Validation and extraction\<close>


lemma set_fold_set_column: "set (fold set_column names cols) = set cols \<union> set names"
  by (induction names arbitrary: cols) (auto simp: set_column_def)


lemma clean_data_columns:
  assumes "clean_data pd raw = Inr df"
  shows "set (columns df) = set (normalize_columns (columns raw)) \<union> set feature_columns"
    and "{''order_date'', ''sales'', ''profit''} \<subseteq> set (normalize_columns (columns raw))"
proof -
  from assms have c: "columns df = fold set_column feature_columns (normalize_columns (columns raw))"
    and h: "has_column (normalize_columns (columns raw)) ''order_date'' = Inr ()"
      "has_columns (normalize_columns (columns raw))
         [''postal_code'', ''quantity'', ''discount'', ''sales'', ''profit''] = Inr ()"
    unfolding clean_data_def Let_def by (auto split: sum.splits)
  from c show "set (columns df) = set (normalize_columns (columns raw)) \<union> set feature_columns"
    by (simp add: set_fold_set_column)
  from h show "{''order_date'', ''sales'', ''profit''} \<subseteq> set (normalize_columns (columns raw))"
    by (auto simp: has_column_def split: if_splits sum.splits)
qed


lemma validate_data_returns:
  assumes "set validated_columns \<subseteq> set (columns df)"
  shows "map_sum id snd (validate_data df) = Inr df"
  using has_columns_ok [OF assms] by (simp add: validate_data_def Let_def)



lemma frame_2016_columns:
  assumes "clean_data example_pd (frame_2016 rs) = Inr df"
  shows "set validated_columns \<subseteq> set (columns df)"
  using clean_data_columns(1) [OF assms]
  by (simp add: frame_2016_def normalize_example_columns feature_columns_def
      validated_columns_def)

lemma table_of_frame_2016:
  assumes "clean_data example_pd (frame_2016 rs) = Inr (cleaned_of (frame_2016 rs))"
  shows "table_of (frame_2016 rs) = load_to_database (cleaned_of (frame_2016 rs))"
proof -
  have "map_sum id snd (validate_data (cleaned_of (frame_2016 rs))) = Inr (cleaned_of (frame_2016 rs))"
    by (rule validate_data_returns [OF frame_2016_columns [OF assms]])
  then show ?thesis by (auto simp: table_of_def split: sum.splits)
qed




text \<open>C9 (as amended). For a path that does not exist, \<^verbatim>\<open>extract_data\<close> prints the
  file-not-found message with the path and raises \<^verbatim>\<open>SystemExit(1)\<close>; the run then ends
  with status 1, having printed only that message, with the table \<^verbatim>\<open>sales\<close> as it was
  before and no query result.\<close>

theorem extract_data_missing_file:
  "(fs filepath = None \<longrightarrow>
      extract_data fs read_csv filepath = ([File_not_found filepath], Inl (SystemExit 1)))
   \<and> (fs DATA_PATH = None \<longrightarrow>
      run_pipeline fs read_csv pd db =
        \<lparr> printed = [File_not_found DATA_PATH], sales_table = db, query_results = None,
          exit_status = 1 \<rparr>)"
  by (simp add: extract_data_def run_pipeline_def fail_def)

theorem extract_data_missing_file_witness:
  "Map.empty ''missing.csv'' = (None :: string option)
   \<and> extract_data Map.empty (\<lambda>c. Inl ReadError) ''missing.csv''
       = ([File_not_found ''missing.csv''], Inl (SystemExit 1))
   \<and> run_pipeline Map.empty (\<lambda>c. Inl ReadError) example_pd (Some [])
       = \<lparr> printed = [File_not_found DATA_PATH], sales_table = Some [], query_results = None,
           exit_status = 1 \<rparr>"
  using extract_data_missing_file [of Map.empty "''missing.csv''" "\<lambda>c. Inl ReadError" example_pd "Some []"]
  by simp

text \<open>The claim C9 as stated has \<^verbatim>\<open>extract_data\<close> fail with an error of the class
  \<^verbatim>\<open>FileNotFoundError\<close>. For a missing file the error it raises is \<^verbatim>\<open>SystemExit(1)\<close>, which
  is not of that class.\<close>

theorem missing_file_raises_system_exit:
  "snd (extract_data Map.empty (\<lambda>c. Inl ReadError) ''missing.csv'') = Inl (SystemExit 1)
   \<and> \<not> file_not_found_class (SystemExit 1)
   \<and> snd (extract_data Map.empty (\<lambda>c. Inl ReadError) ''missing.csv'')
       \<noteq> Inl (FileNotFoundError ''missing.csv'')"
  by (simp add: extract_data_def)

section \<open>Year-over-year growth\<close>












subsection \<open>The tables of the example frames\<close>

lemma to_datetime_col_the:
  "to_datetime_col pd xs = Inr ts \<Longrightarrow> ts = map (\<lambda>x. the (pd x)) xs"
  by (induction xs arbitrary: ts) (auto split: option.splits sum.splits)

lemma zip3_map: "zip xs (zip (map f xs) (map g xs)) = map (\<lambda>x. (x, f x, g x)) xs"
  by (induction xs) auto

lemma clean_data_rows_exact:
  assumes "clean_data pd df = Inr df'"
  shows "rows df' =
           map (\<lambda>r. clean_row (\<exists>r \<in> set (drop_duplicates (rows df)). postal_code r = None) r
                      (the (pd (order_date r))) (the (pd (ship_date r))))
             (drop_duplicates (rows df))"
proof -
  let ?rs = "drop_duplicates (rows df)"
  from assms obtain ods sds where
    o: "to_datetime_col pd (map order_date ?rs) = Inr ods"
    and s: "to_datetime_col pd (map ship_date ?rs) = Inr sds"
    and r: "rows df' = map (\<lambda>(r, od, sd).
                 clean_row (\<exists>r \<in> set ?rs. postal_code r = None) r od sd)
               (zip ?rs (zip ods sds))"
    unfolding clean_data_def Let_def by (auto split: sum.splits)
  from o have "ods = map (\<lambda>r. the (pd (order_date r))) ?rs"
    by (auto dest: to_datetime_col_the simp: comp_def)
  moreover from s have "sds = map (\<lambda>r. the (pd (ship_date r))) ?rs"
    by (auto dest: to_datetime_col_the simp: comp_def)
  ultimately show ?thesis unfolding r by (simp add: zip3_map comp_def)
qed

text \<open>The table that the pipeline makes of an example frame whose rows are pairwise
  different.\<close>

lemma table_of_frame:
  assumes "\<forall>r \<in> set rs. order_date r \<in> {''11/8/2016'', ''6/12/2017''}
             \<and> ship_date r \<in> {''11/11/2016'', ''6/16/2017''}"
    and "distinct rs"
  shows "table_of (frame_2016 rs) =
           map (\<lambda>r. to_db_row (clean_row (\<exists>r \<in> set rs. postal_code r = None) r
                      (the (example_pd (order_date r))) (the (example_pd (ship_date r))))) rs"
proof -
  note ok = frame_2016_ok [OF assms(1)]
  have "drop_duplicates (rows (frame_2016 rs)) = rs"
    using assms(2) by (simp add: frame_2016_def drop_duplicates_distinct)
  with clean_data_rows_exact [OF ok]
  show ?thesis
    by (simp add: table_of_frame_2016 [OF ok] load_to_database_def comp_def)
qed

lemma to_db_row_sel:
  "order_id (to_db_row c) = order_id c"
  "order_year (to_db_row c) = order_year c"
  "sales (to_db_row c) = sales c"
  "profit (to_db_row c) = profit c"
  "quantity (to_db_row c) = quantity c"
  "discount (to_db_row c) = discount c"
  "profit_margin_pct (to_db_row c) = profit_margin_pct c"
  "product_name (to_db_row c) = product_name c"
  "category (to_db_row c) = category c"
  "sub_category (to_db_row c) = sub_category c"
  "discount_bucket (to_db_row c) = category_str (discount_bucket c)"
  by (simp_all add: to_db_row_def)

lemma clean_row_sel_more:
  "order_id (clean_row fill r od sd) = order_id r"
  "product_name (clean_row fill r od sd) = product_name r"
  "category (clean_row fill r od sd) = category r"
  "sub_category (clean_row fill r od sd) = sub_category r"
  by (simp_all add: clean_row_def Let_def)

lemma example_row_sel_more:
  "order_id (example_row rid od sd name s p q d) = ''CA-'' @ rid"
  "category (example_row rid od sd name s p q d) = ''Furniture''"
  "sub_category (example_row rid od sd name s p q d) = ''Bookcases''"
  "postal_code (example_row rid od sd name s p q d) = Some 42420"
  by (simp_all add: example_row_def)

lemma example_pd_years:
  "ts_year (the (example_pd ''11/8/2016'')) = 2016"
  "ts_year (the (example_pd ''6/12/2017'')) = 2017"
  by (simp_all add: example_pd_def)

lemma floor_add_half: "\<lfloor>of_int m + (1 / 2 :: rat)\<rfloor> = m"
  by (rule floor_unique) simp_all

lemma sql_round_of_int: "sql_round n (of_int k) = of_int k"
proof -
  have a: "\<lfloor>of_int m * (10::rat) ^ n + 1 / 2\<rfloor> = m * 10 ^ n" for m
    using floor_add_half [of "m * 10 ^ n"] by simp
  have "sql_round n (of_int k) =
      (if 0 \<le> k then of_int (k * 10 ^ n) / 10 ^ n else - (of_int (- k * 10 ^ n) / 10 ^ n))"
    using a [of k] a [of "- k"] by (simp add: sql_round_def)
  then show ?thesis by simp
qed

lemma sql_round_examples:
  "sql_round 2 0 = 0" "sql_round 2 20 = 20" "sql_round 2 100 = 100" "sql_round 2 150 = 150"
  "sql_round 2 (- 10) = - 10" "sql_round 2 50 = 50" "sql_round 2 (- 150) = - 150"
  using sql_round_of_int [of 2 0] sql_round_of_int [of 2 20] sql_round_of_int [of 2 100]
    sql_round_of_int [of 2 150] sql_round_of_int [of 2 "- 10"] sql_round_of_int [of 2 50]
    sql_round_of_int [of 2 "- 150"]
  by simp_all

lemmas example_sel = to_db_row_sel clean_row_sel clean_row_sel_more example_row_sel
  example_row_sel_more example_pd_years









section \<open>The end-to-end example\<close>

lemma rint_of_int: "rint (of_int m) = m"
  by (simp add: rint_def)

lemma np_round_of_int: "np_round n (of_int k) = of_int k"
proof -
  have "rint (of_int k * 10 ^ n) = k * 10 ^ n"
    using rint_of_int [of "k * 10 ^ n"] by simp
  then show ?thesis by (simp add: np_round_def)
qed

lemma margin_examples:
  "margin_of 20 100 = 20" "margin_of 0 0 = 0" "margin_of (- 10) 50 = - 20"
  using np_round_of_int [of 2 20] np_round_of_int [of 2 "- 20"]
  by (simp_all add: margin_of_def)

lemma bucket_examples:
  "bucket_of 0 = Some ''No Discount''" "bucket_of 0.15 = Some ''11-20%''"
  "bucket_of 0.25 = Some ''21-30%''"
  "bucket_of (3 / 20) = Some ''11-20%''" "bucket_of (1 / 4) = Some ''21-30%''"
  by (simp_all add: bucket_of_cases)

lemma discount_impact_three:
  assumes "t = [x1, x2, x3]"
    and "discount_bucket x1 = ''No Discount''" "discount_bucket x2 = ''11-20%''"
        "discount_bucket x3 = ''21-30%''"
    and "profit x1 = 20" "profit x2 = 0" "profit x3 = - 10"
  shows "map (\<lambda>g. (d_discount_bucket g, d_transaction_count g, d_loss_count g))
           (discount_impact t) =
         [(''11-20%'', 1, 0), (''21-30%'', 1, 1), (''No Discount'', 1, 0)]"
  using assms by (simp add: discount_impact_def group_by_def order_by_asc_def)

text \<open>C2 (as amended). For a table of the three rows (sales 100, profit 20, quantity 2,
  discount 0.0), (0, 0, 1, 0.15), (50, -10, 5, 0.25), whatever their other columns, a
  successful \<^verbatim>\<open>clean_data\<close> yields the profit margins [20.0, 0.0, -20.0] and the buckets
  [No Discount, 11-20%, 21-30%]; \<^verbatim>\<open>discount_impact\<close> over the loaded rows has one group
  per bucket, and its loss counts add up to 1, the one loss being in the group 21-30%.\<close>

theorem end_to_end_example:
  assumes "rows df = [r1, r2, r3]"
    and "sales r1 = 100" "profit r1 = 20" "quantity r1 = 2" "discount r1 = 0.0"
    and "sales r2 = 0" "profit r2 = 0" "quantity r2 = 1" "discount r2 = 0.15"
    and "sales r3 = 50" "profit r3 = - 10" "quantity r3 = 5" "discount r3 = 0.25"
    and "clean_data pd df = Inr df'"
  shows "map profit_margin_pct (rows df') = [20.0, 0.0, - 20.0]
    \<and> map discount_bucket (rows df') = [Some ''No Discount'', Some ''11-20%'', Some ''21-30%'']
    \<and> map (\<lambda>g. (d_discount_bucket g, d_transaction_count g, d_loss_count g))
          (discount_impact (load_to_database df')) =
        [(''11-20%'', 1, 0), (''21-30%'', 1, 1), (''No Discount'', 1, 0)]
    \<and> sum_list (map d_loss_count (discount_impact (load_to_database df'))) = 1"
proof -
  have "distinct [r1, r2, r3]" using assms by auto
  then have dd: "drop_duplicates (rows df) = [r1, r2, r3]"
    using assms(1) by (simp add: drop_duplicates_distinct)
  obtain c1 c2 c3 where r: "rows df' = [c1, c2, c3]"
    and c: "c1 = clean_row (\<exists>r \<in> set [r1, r2, r3]. postal_code r = None) r1
                   (the (pd (order_date r1))) (the (pd (ship_date r1)))"
           "c2 = clean_row (\<exists>r \<in> set [r1, r2, r3]. postal_code r = None) r2
                   (the (pd (order_date r2))) (the (pd (ship_date r2)))"
           "c3 = clean_row (\<exists>r \<in> set [r1, r2, r3]. postal_code r = None) r3
                   (the (pd (order_date r3))) (the (pd (ship_date r3)))"
    using clean_data_rows_exact [OF assms(14)] unfolding dd by simp
  have mg: "margin_of (profit r1) (sales r1) = 20" "margin_of (profit r2) (sales r2) = 0"
    "margin_of (profit r3) (sales r3) = - 20"
    by (simp_all only: assms margin_examples)
  have bk: "bucket_of (discount r1) = Some ''No Discount''"
    "bucket_of (discount r2) = Some ''11-20%''" "bucket_of (discount r3) = Some ''21-30%''"
    unfolding assms by (simp_all add: bucket_examples)
  have pr: "profit r1 = 20" "profit r2 = 0" "profit r3 = - 10" by fact+
  have m: "map profit_margin_pct (rows df') = [20.0, 0.0, - 20.0]"
    unfolding r c by (simp add: clean_row_sel mg)
  have b: "map discount_bucket (rows df') = [Some ''No Discount'', Some ''11-20%'', Some ''21-30%'']"
    unfolding r c by (simp add: clean_row_sel bk)
  have t: "load_to_database df' = [to_db_row c1, to_db_row c2, to_db_row c3]"
    by (simp add: load_to_database_def r)
  have d: "map (\<lambda>g. (d_discount_bucket g, d_transaction_count g, d_loss_count g))
          (discount_impact (load_to_database df')) =
        [(''11-20%'', 1, 0), (''21-30%'', 1, 1), (''No Discount'', 1, 0)]"
    by (intro discount_impact_three [OF t])
      (simp_all add: c to_db_row_sel clean_row_sel bk pr category_str_def)
  have "map d_loss_count (discount_impact (load_to_database df'))
      = map (\<lambda>(b, n, l). l) (map (\<lambda>g. (d_discount_bucket g, d_transaction_count g, d_loss_count g))
          (discount_impact (load_to_database df')))"
    by (simp add: comp_def)
  then have "sum_list (map d_loss_count (discount_impact (load_to_database df'))) = 1"
    unfolding d by simp
  with m b d show ?thesis by blast
qed

lemma example_raw_ok: "clean_data example_pd example_raw = Inr (cleaned_of example_raw)"
  unfolding example_raw_def by (rule frame_2016_ok) (simp add: example_row_sel)

theorem end_to_end_example_witness:
  "rows example_raw =
     [example_row ''1'' ''11/8/2016'' ''11/11/2016'' ''Bookcase'' 100 20 2 0.0,
      example_row ''2'' ''11/8/2016'' ''11/11/2016'' ''Bookcase'' 0 0 1 0.15,
      example_row ''3'' ''11/8/2016'' ''11/11/2016'' ''Bookcase'' 50 (- 10) 5 0.25]
   \<and> clean_data example_pd example_raw = Inr (cleaned_of example_raw)
   \<and> map profit_margin_pct (rows (cleaned_of example_raw)) = [20.0, 0.0, - 20.0]
   \<and> map discount_bucket (rows (cleaned_of example_raw)) =
       [Some ''No Discount'', Some ''11-20%'', Some ''21-30%'']
   \<and> map (\<lambda>g. (d_discount_bucket g, d_transaction_count g, d_loss_count g))
          (discount_impact (table_of example_raw)) =
        [(''11-20%'', 1, 0), (''21-30%'', 1, 1), (''No Discount'', 1, 0)]
   \<and> sum_list (map d_loss_count (discount_impact (table_of example_raw))) = 1"
proof -
  have r: "rows example_raw =
     [example_row ''1'' ''11/8/2016'' ''11/11/2016'' ''Bookcase'' 100 20 2 0.0,
      example_row ''2'' ''11/8/2016'' ''11/11/2016'' ''Bookcase'' 0 0 1 0.15,
      example_row ''3'' ''11/8/2016'' ''11/11/2016'' ''Bookcase'' 50 (- 10) 5 0.25]"
    by (simp add: example_raw_def frame_2016_def)
  have tb: "table_of example_raw = load_to_database (cleaned_of example_raw)"
    using example_raw_ok unfolding example_raw_def by (rule table_of_frame_2016)
  from end_to_end_example [OF r _ _ _ _ _ _ _ _ _ _ _ _ example_raw_ok] r example_raw_ok
  show ?thesis by (simp add: example_row_sel tb)
qed

text \<open>The claim C2 as stated gives the second row, of discount 0.15, the bucket 1-10%.
  The discount 0.15 lies in (0.1, 0.2], and the cleaned example has 11-20% there.\<close>

theorem second_row_bucket_is_11_to_20:
  "clean_data example_pd example_raw = Inr (cleaned_of example_raw)
   \<and> map discount (rows (cleaned_of example_raw)) = [0.0, 0.15, 0.25]
   \<and> map discount_bucket (rows (cleaned_of example_raw)) =
       [Some ''No Discount'', Some ''11-20%'', Some ''21-30%'']
   \<and> map discount_bucket (rows (cleaned_of example_raw)) \<noteq>
       [Some ''No Discount'', Some ''1-10%'', Some ''21-30%'']"
proof -
  have dd: "drop_duplicates (rows example_raw) =
     [example_row ''1'' ''11/8/2016'' ''11/11/2016'' ''Bookcase'' 100 20 2 0.0,
      example_row ''2'' ''11/8/2016'' ''11/11/2016'' ''Bookcase'' 0 0 1 0.15,
      example_row ''3'' ''11/8/2016'' ''11/11/2016'' ''Bookcase'' 50 (- 10) 5 0.25]"
    unfolding example_raw_def frame_2016_def
    by (simp add: drop_duplicates_def keep_unmarked_def) (auto dest: example_row_rid)
  have "map (\<lambda>r. (discount r, discount_bucket r)) (rows (cleaned_of example_raw))
      = map (\<lambda>r. (discount r, bucket_of (discount r))) (drop_duplicates (rows example_raw))"
    by (rule clean_data_map [OF example_raw_ok]) (simp add: clean_row_sel)
  then have "map (\<lambda>r. (discount r, discount_bucket r)) (rows (cleaned_of example_raw))
      = [(0.0, Some ''No Discount''), (0.15, Some ''11-20%''), (0.25, Some ''21-30%'')]"
    unfolding dd by (simp add: example_row_sel bucket_examples)
  then have "map discount (rows (cleaned_of example_raw)) = [0.0, 0.15, 0.25]
     \<and> map discount_bucket (rows (cleaned_of example_raw)) =
       [Some ''No Discount'', Some ''11-20%'', Some ''21-30%'']"
    by (cases "rows (cleaned_of example_raw)" rule: list.exhaust) (auto simp: map_eq_Cons_conv)
  with example_raw_ok show ?thesis by simp
qed

section \<open>Top and worst products\<close>

lemma sorted_map_uminus_rev: "sorted (map uminus zs) \<longleftrightarrow> sorted (rev zs)" for zs :: "rat list"
  by (simp add: sorted_wrt_map sorted_wrt_rev)

lemma sort_key_desc_keys:
  fixes f :: "'a \<Rightarrow> rat"
  shows "map f (sort_key (\<lambda>x. - f x) xs) = rev (map f (sort_key f xs))"
proof -
  let ?d = "sort_key (\<lambda>x. - f x) xs"
  have "sorted (map (\<lambda>x. - f x) ?d)" by (rule sorted_sort_key)
  then have "sorted (map uminus (map f ?d))" by (simp add: comp_def)
  then have "sorted (rev (map f ?d))" by (simp only: sorted_map_uminus_rev)
  moreover have "mset (rev (map f ?d)) = mset (map f xs)" by simp
  ultimately have 1: "sort (map f xs) = rev (map f ?d)" by (intro properties_for_sort)
  have "sorted (map f (sort_key f xs))" by (rule sorted_sort_key)
  moreover have "mset (map f (sort_key f xs)) = mset (map f xs)" by simp
  ultimately have 2: "sort (map f xs) = map f (sort_key f xs)" by (intro properties_for_sort)
  from 1 2 have "rev (map f ?d) = map f (sort_key f xs)" by simp
  then have "rev (rev (map f ?d)) = rev (map f (sort_key f xs))" by simp
  then show ?thesis by simp
qed

lemma filter_same_key:
  "distinct (map f zs) \<Longrightarrow> k \<in> set zs \<Longrightarrow> filter (\<lambda>x. f k = f x) zs = [k]"
proof (induction zs)
  case Nil
  then show ?case by simp
next
  case (Cons z zs)
  from Cons.prems(1) have nz: "f z \<notin> f ` set zs" and d: "distinct (map f zs)" by simp_all
  show ?case
  proof (cases "k = z")
    case True
    from nz have "\<forall>x \<in> set zs. f z \<noteq> f x" by blast
    then have "filter (\<lambda>x. f z = f x) zs = []" by (simp add: filter_empty_conv)
    with True show ?thesis by simp
  next
    case False
    with Cons.prems(2) have k: "k \<in> set zs" by simp
    with nz have "f k \<noteq> f z" by (metis image_eqI)
    with Cons.IH [OF d k] show ?thesis by simp
  qed
qed

lemma sort_key_desc_distinct:
  fixes f :: "'a \<Rightarrow> rat"
  assumes "distinct (map f xs)"
  shows "sort_key (\<lambda>x. - f x) xs = rev (sort_key f xs)"
proof (rule properties_for_sort_key)
  let ?ys = "rev (sort_key f xs)"
  show "mset ?ys = mset xs" by simp
  have "sorted (map f (sort_key f xs))" by (rule sorted_sort_key)
  then have "sorted (rev (rev (map f (sort_key f xs))))" by simp
  then have "sorted (map uminus (rev (map f (sort_key f xs))))"
    by (simp only: sorted_map_uminus_rev)
  then show "sorted (map (\<lambda>x. - f x) ?ys)" by (simp add: comp_def rev_map)
  fix k assume "k \<in> set ?ys"
  then have k: "k \<in> set xs" by simp
  have "mset (map f ?ys) = mset (map f xs)" by simp
  from mset_eq_imp_distinct_iff [OF this] assms have "distinct (map f ?ys)" by blast
  with k have "filter (\<lambda>x. f k = f x) ?ys = [k]" by (intro filter_same_key) simp_all
  moreover from assms k have "filter (\<lambda>x. f k = f x) xs = [k]" by (rule filter_same_key)
  ultimately show "filter (\<lambda>x. - f k = - f x) ?ys = filter (\<lambda>x. - f k = - f x) xs" by simp
qed

lemma disjoint_ends:
  fixes f :: "'a \<Rightarrow> rat"
  assumes "distinct (map f gs)" and "30 \<le> length gs"
  shows "set (take 15 (sort_key (\<lambda>x. - f x) gs)) \<inter> set (take 15 (sort_key f gs)) = {}"
proof -
  let ?s = "sort_key f gs"
  from assms(1) have "distinct gs" by (simp add: distinct_map)
  then have d: "distinct ?s" by simp
  have "take 15 (sort_key (\<lambda>x. - f x) gs) = rev (drop (length ?s - 15) ?s)"
    by (simp add: sort_key_desc_distinct [OF assms(1)] take_rev)
  moreover have "set (take 15 ?s) \<inter> set (drop (length ?s - 15) ?s) = {}"
    using d assms(2) by (intro set_take_disj_set_drop_if_distinct) simp_all
  ultimately show ?thesis by auto
qed


lemma tied_table:
  "\<exists>x1 x2. table_of tied_raw = [x1, x2]
     \<and> product_name x1 = ''Bookcase'' \<and> category x1 = ''Furniture''
     \<and> sub_category x1 = ''Bookcases'' \<and> sales x1 = 100 \<and> profit x1 = 20
     \<and> product_name x2 = ''Chair'' \<and> category x2 = ''Furniture''
     \<and> sub_category x2 = ''Bookcases'' \<and> sales x2 = 80 \<and> profit x2 = 20"
  unfolding tied_raw_def
  by (subst table_of_frame) (auto simp: example_sel dest: example_row_rid)

lemma two_products_table:
  "\<exists>x1 x2. table_of two_products_raw = [x1, x2]
     \<and> product_name x1 = ''Bookcase'' \<and> category x1 = ''Furniture''
     \<and> sub_category x1 = ''Bookcases'' \<and> sales x1 = 100 \<and> profit x1 = 20
     \<and> product_name x2 = ''Chair'' \<and> category x2 = ''Furniture''
     \<and> sub_category x2 = ''Bookcases'' \<and> sales x2 = 80 \<and> profit x2 = - 10"
  unfolding two_products_raw_def
  by (subst table_of_frame) (auto simp: example_sel dest: example_row_rid)

lemma product_groups_two:
  assumes "t = [x1, x2]"
    and "product_name x1 = ''Bookcase''" "category x1 = ''Furniture''"
        "sub_category x1 = ''Bookcases''"
    and "product_name x2 = ''Chair''" "category x2 = ''Furniture''"
        "sub_category x2 = ''Bookcases''"
  shows "product_groups t =
     [\<lparr> p_product_name = ''Bookcase'', p_category = ''Furniture'',
        p_sub_category = ''Bookcases'', p_total_sales = sql_round 2 (sales x1),
        p_total_profit = sql_round 2 (profit x1), p_units_sold = quantity x1,
        p_avg_discount = sql_round 2 (sql_avg [discount x1]) \<rparr>,
      \<lparr> p_product_name = ''Chair'', p_category = ''Furniture'',
        p_sub_category = ''Bookcases'', p_total_sales = sql_round 2 (sales x2),
        p_total_profit = sql_round 2 (profit x2), p_units_sold = quantity x2,
        p_avg_discount = sql_round 2 (sql_avg [discount x2]) \<rparr>]"
  using assms by (simp add: product_groups_def group_by_def)

subsection \<open>Thirty products\<close>

lemma str_nat_distinct: "distinct (map str_nat [1..<31])"
  by code_simp

lemma str_nat_inj:
  "Suc 0 \<le> i \<Longrightarrow> i < 31 \<Longrightarrow> Suc 0 \<le> j \<Longrightarrow> j < 31 \<Longrightarrow> str_nat i = str_nat j \<Longrightarrow> i = j"
  using str_nat_distinct unfolding distinct_map by (auto dest: inj_onD)

lemma thirty_rows_distinct:
  "distinct (map (\<lambda>i. example_row (str_nat i) ''11/8/2016'' ''11/11/2016'' (''P'' @ str_nat i)
                 100 (of_nat i) 1 0.0) [1 ..< 31])"
  unfolding distinct_map
  by (auto intro!: inj_onI dest!: example_row_rid intro: str_nat_inj)

lemma thirty_table:
  "\<exists>F. table_of thirty_raw = map F [1 ..< 31]
     \<and> (\<forall>i. product_name (F i) = ''P'' @ str_nat i \<and> category (F i) = ''Furniture''
            \<and> sub_category (F i) = ''Bookcases'' \<and> profit (F i) = of_nat i)"
proof -
  let ?mk = "\<lambda>i. example_row (str_nat i) ''11/8/2016'' ''11/11/2016'' (''P'' @ str_nat i)
                 100 (of_nat i) 1 0.0"
  let ?rs = "map ?mk [1 ..< 31]"
  let ?F = "\<lambda>r. to_db_row (clean_row (\<exists>r \<in> set ?rs. postal_code r = None) r
                      (the (example_pd (order_date r))) (the (example_pd (ship_date r))))"
  have "\<forall>r \<in> set ?rs. order_date r \<in> {''11/8/2016'', ''6/12/2017''}
             \<and> ship_date r \<in> {''11/11/2016'', ''6/16/2017''}"
    by (auto simp: example_row_sel)
  from table_of_frame [OF this thirty_rows_distinct]
  have "table_of thirty_raw = map (?F \<circ> ?mk) [1 ..< 31]"
    by (simp only: thirty_raw_def map_map)
  moreover have "\<forall>i. product_name ((?F \<circ> ?mk) i) = ''P'' @ str_nat i
       \<and> category ((?F \<circ> ?mk) i) = ''Furniture''
       \<and> sub_category ((?F \<circ> ?mk) i) = ''Bookcases'' \<and> profit ((?F \<circ> ?mk) i) = of_nat i"
    by (simp add: example_sel)
  ultimately show ?thesis by blast
qed

lemma group_by_distinct_keys:
  assumes "distinct (map key t)"
  shows "group_by key t = map (\<lambda>k. (k, filter (\<lambda>r. key r = k) t)) (sort (map key t))"
  using assms by (simp add: group_by_def distinct_remdups_id)

lemma product_groups_single_rows:
  assumes "distinct (map (\<lambda>r. (product_name r, category r, sub_category r)) t)"
  shows "length (product_groups t) = length t"
    and "mset (map p_total_profit (product_groups t)) = mset (map (\<lambda>r. sql_round 2 (profit r)) t)"
proof -
  let ?key = "\<lambda>r. (product_name r, category r, sub_category r)"
  let ?G = "\<lambda>k. sql_round 2 (sum_list (map profit (filter (\<lambda>r. ?key r = k) t)))"
  note g = group_by_distinct_keys [OF assms]
  show "length (product_groups t) = length t"
    by (simp add: product_groups_def g)
  have "map p_total_profit (product_groups t) = map ?G (sort (map ?key t))"
    by (simp add: product_groups_def g comp_def)
  then have "mset (map p_total_profit (product_groups t)) = mset (map ?G (map ?key t))"
    by (simp only: mset_map mset_sort)
  also have "map ?G (map ?key t) = map (\<lambda>r. sql_round 2 (profit r)) t"
  proof -
    have "?G (?key r) = sql_round 2 (profit r)" if "r \<in> set t" for r
    proof -
      have e: "(\<lambda>x. ?key x = ?key r) = (\<lambda>x. ?key r = ?key x)" by auto
      have "filter (\<lambda>x. ?key x = ?key r) t = [r]"
        unfolding e using assms that by (rule filter_same_key)
      then show ?thesis by simp
    qed
    then show ?thesis by simp
  qed
  finally show "mset (map p_total_profit (product_groups t)) = mset (map (\<lambda>r. sql_round 2 (profit r)) t)" .
qed

lemma thirty_groups:
  "length (product_groups (table_of thirty_raw)) = 30"
  "distinct (map p_total_profit (product_groups (table_of thirty_raw)))"
proof -
  from thirty_table obtain F where t: "table_of thirty_raw = map F [1 ..< 31]"
    and F: "\<And>i. product_name (F i) = ''P'' @ str_nat i" "\<And>i. category (F i) = ''Furniture''"
      "\<And>i. sub_category (F i) = ''Bookcases''" "\<And>i. profit (F i) = of_nat i"
    by blast
  have k: "distinct (map (\<lambda>r. (product_name r, category r, sub_category r)) (table_of thirty_raw))"
    unfolding t map_map distinct_map
    by (auto intro!: inj_onI simp: F intro: str_nat_inj)
  from product_groups_single_rows(1) [OF k]
  show "length (product_groups (table_of thirty_raw)) = 30" by (simp add: t)
  have "map (\<lambda>r. sql_round 2 (profit r)) (table_of thirty_raw) = map (\<lambda>i. of_int (int i)) [1 ..< 31]"
    unfolding t map_map comp_def F
    using sql_round_of_int [of 2 "int i" for i] by simp
  moreover have "distinct (map (\<lambda>i. (of_int (int i) :: rat)) [1 ..< 31])"
    unfolding distinct_map by (auto intro!: inj_onI)
  ultimately have "distinct (map (\<lambda>r. sql_round 2 (profit r)) (table_of thirty_raw))" by simp
  with mset_eq_imp_distinct_iff [OF product_groups_single_rows(2) [OF k]]
  show "distinct (map p_total_profit (product_groups (table_of thirty_raw)))" by blast
qed

text \<open>C6 (as amended). When the products form at most 15 groups, \<^verbatim>\<open>top_products\<close> and
  \<^verbatim>\<open>worst_products\<close> contain the same rows, and the total profits of one read in order
  are those of the other read backwards; the rows themselves are in exactly reversed
  order when no two groups have the same total profit. With 30 or more groups of
  pairwise different total profits the two results of 15 rows are disjoint, and there is a
  table with more than 15 groups for which they are.\<close>

theorem top_worst_products_reversed:
  "(length (product_groups t) \<le> 15 \<longrightarrow>
      mset (worst_products t) = mset (top_products t)
    \<and> map p_total_profit (worst_products t) = rev (map p_total_profit (top_products t))
    \<and> (distinct (map p_total_profit (product_groups t)) \<longrightarrow>
         worst_products t = rev (top_products t)))
   \<and> (30 \<le> length (product_groups t) \<and> distinct (map p_total_profit (product_groups t)) \<longrightarrow>
        set (top_products t) \<inter> set (worst_products t) = {})
   \<and> (\<exists>t'. 15 < length (product_groups t')
          \<and> set (top_products t') \<inter> set (worst_products t') = {})"
proof (intro conjI impI)
  assume l: "length (product_groups t) \<le> 15"
  then have top: "top_products t = sort_key (\<lambda>r. - p_total_profit r) (product_groups t)"
    and worst: "worst_products t = sort_key p_total_profit (product_groups t)"
    by (simp_all add: top_products_def worst_products_def limit_def order_by_desc_def
        order_by_asc_def)
  show "mset (worst_products t) = mset (top_products t)"
    by (simp add: top worst)
  show "map p_total_profit (worst_products t) = rev (map p_total_profit (top_products t))"
    by (simp add: top worst sort_key_desc_keys)
  show "worst_products t = rev (top_products t)"
    if "distinct (map p_total_profit (product_groups t))"
    using that by (simp add: top worst sort_key_desc_distinct)
next
  assume "30 \<le> length (product_groups t) \<and> distinct (map p_total_profit (product_groups t))"
  then show "set (top_products t) \<inter> set (worst_products t) = {}"
    by (simp add: top_products_def worst_products_def limit_def order_by_desc_def
        order_by_asc_def disjoint_ends)
next
  have "set (top_products (table_of thirty_raw)) \<inter> set (worst_products (table_of thirty_raw)) = {}"
    using thirty_groups
    by (simp add: top_products_def worst_products_def limit_def order_by_desc_def
        order_by_asc_def disjoint_ends)
  with thirty_groups(1)
  show "\<exists>t'. 15 < length (product_groups t')
          \<and> set (top_products t') \<inter> set (worst_products t') = {}"
    by (intro exI [of _ "table_of thirty_raw"]) simp
qed

theorem top_worst_products_reversed_witness:
  "length (product_groups (table_of two_products_raw)) \<le> 15
   \<and> distinct (map p_total_profit (product_groups (table_of two_products_raw)))
   \<and> map p_product_name (top_products (table_of two_products_raw)) = [''Bookcase'', ''Chair'']
   \<and> map p_product_name (worst_products (table_of two_products_raw)) = [''Chair'', ''Bookcase'']
   \<and> worst_products (table_of two_products_raw) = rev (top_products (table_of two_products_raw))
   \<and> 30 \<le> length (product_groups (table_of thirty_raw))
   \<and> distinct (map p_total_profit (product_groups (table_of thirty_raw)))
   \<and> set (top_products (table_of thirty_raw)) \<inter> set (worst_products (table_of thirty_raw)) = {}"
proof -
  from two_products_table obtain x1 x2 where t: "table_of two_products_raw = [x1, x2]"
    and k: "product_name x1 = ''Bookcase''" "category x1 = ''Furniture''"
      "sub_category x1 = ''Bookcases''" "product_name x2 = ''Chair''"
      "category x2 = ''Furniture''" "sub_category x2 = ''Bookcases''"
    and p: "profit x1 = 20" "profit x2 = - 10" by blast
  note g = product_groups_two [OF t k]
  have a: "length (product_groups (table_of two_products_raw)) \<le> 15"
    "distinct (map p_total_profit (product_groups (table_of two_products_raw)))"
    by (simp_all add: g p sql_round_examples)
  have b: "map p_product_name (top_products (table_of two_products_raw)) = [''Bookcase'', ''Chair'']"
    by (simp add: top_products_def limit_def order_by_desc_def g p sql_round_examples)
  have c: "map p_product_name (worst_products (table_of two_products_raw)) = [''Chair'', ''Bookcase'']"
    by (simp add: worst_products_def limit_def order_by_asc_def g p sql_round_examples)
  from top_worst_products_reversed [of "table_of two_products_raw"] a
  have d: "worst_products (table_of two_products_raw) = rev (top_products (table_of two_products_raw))"
    by blast
  from top_worst_products_reversed [of "table_of thirty_raw"] thirty_groups
  have e: "set (top_products (table_of thirty_raw)) \<inter> set (worst_products (table_of thirty_raw)) = {}"
    by simp
  from a b c d e thirty_groups show ?thesis by simp
qed

text \<open>The claim C6 as stated has the two results in exactly reversed order whenever there
  are at most 15 groups. Two products of the same total profit are two groups, and both
  queries list them in the same order.\<close>

theorem top_worst_products_tie:
  "length (product_groups (table_of tied_raw)) = 2
   \<and> map p_total_profit (product_groups (table_of tied_raw)) = [20, 20]
   \<and> map p_product_name (top_products (table_of tied_raw)) = [''Bookcase'', ''Chair'']
   \<and> map p_product_name (worst_products (table_of tied_raw)) = [''Bookcase'', ''Chair'']
   \<and> worst_products (table_of tied_raw) \<noteq> rev (top_products (table_of tied_raw))"
proof -
  from tied_table obtain x1 x2 where t: "table_of tied_raw = [x1, x2]"
    and k: "product_name x1 = ''Bookcase''" "category x1 = ''Furniture''"
      "sub_category x1 = ''Bookcases''" "product_name x2 = ''Chair''"
      "category x2 = ''Furniture''" "sub_category x2 = ''Bookcases''"
    and p: "profit x1 = 20" "profit x2 = 20" by blast
  note g = product_groups_two [OF t k]
  have a: "length (product_groups (table_of tied_raw)) = 2"
    "map p_total_profit (product_groups (table_of tied_raw)) = [20, 20]"
    by (simp_all add: g p sql_round_examples)
  have b: "map p_product_name (top_products (table_of tied_raw)) = [''Bookcase'', ''Chair'']"
    by (simp add: top_products_def limit_def order_by_desc_def g p)
  have c: "map p_product_name (worst_products (table_of tied_raw)) = [''Bookcase'', ''Chair'']"
    by (simp add: worst_products_def limit_def order_by_asc_def g p)
  have "map p_product_name (rev (top_products (table_of tied_raw))) = [''Chair'', ''Bookcase'']"
    by (simp add: b rev_map [symmetric])
  with c have "worst_products (table_of tied_raw) \<noteq> rev (top_products (table_of tied_raw))"
    by auto
  with a b c show ?thesis by simp
qed

end
